theory Spec2Isabelle
  imports Complex_Main
begin

section \<open>Numbers\<close>

text \<open>
  Positions and velocities are NumPy floating-point arrays. Rounding is idealised away:
  a finite float is a real number and arithmetic on finite values is exact. What NumPy
  does where real arithmetic has no answer is kept: a division by zero gives an
  infinity or NaN (with a warning, not an exception), NaN and the infinities propagate
  through later arithmetic, and every comparison with NaN is false. Signed zeros are
  not distinguished (zero counts as +0).
\<close>

datatype fl = Fin real | PInf | MInf | NaN

instantiation fl :: "{plus, minus, uminus, times, inverse, ord}"
begin

fun uminus_fl :: "fl \<Rightarrow> fl" where
  "uminus_fl (Fin a) = Fin (- a)"
| "uminus_fl PInf = MInf"
| "uminus_fl MInf = PInf"
| "uminus_fl NaN = NaN"

fun plus_fl :: "fl \<Rightarrow> fl \<Rightarrow> fl" where
  "plus_fl (Fin a) (Fin b) = Fin (a + b)"
| "plus_fl (Fin a) PInf = PInf"
| "plus_fl (Fin a) MInf = MInf"
| "plus_fl PInf (Fin b) = PInf"
| "plus_fl PInf PInf = PInf"
| "plus_fl PInf MInf = NaN"
| "plus_fl MInf (Fin b) = MInf"
| "plus_fl MInf MInf = MInf"
| "plus_fl MInf PInf = NaN"
| "plus_fl NaN b = NaN"
| "plus_fl a NaN = NaN"

definition minus_fl :: "fl \<Rightarrow> fl \<Rightarrow> fl" where
  "minus_fl a b = a + (- b)"

fun times_fl :: "fl \<Rightarrow> fl \<Rightarrow> fl" where
  "times_fl (Fin a) (Fin b) = Fin (a * b)"
| "times_fl (Fin a) PInf = (if a = 0 then NaN else if 0 < a then PInf else MInf)"
| "times_fl (Fin a) MInf = (if a = 0 then NaN else if 0 < a then MInf else PInf)"
| "times_fl PInf (Fin b) = (if b = 0 then NaN else if 0 < b then PInf else MInf)"
| "times_fl MInf (Fin b) = (if b = 0 then NaN else if 0 < b then MInf else PInf)"
| "times_fl PInf PInf = PInf"
| "times_fl PInf MInf = MInf"
| "times_fl MInf PInf = MInf"
| "times_fl MInf MInf = PInf"
| "times_fl NaN b = NaN"
| "times_fl a NaN = NaN"

fun divide_fl :: "fl \<Rightarrow> fl \<Rightarrow> fl" where
  "divide_fl (Fin a) (Fin b) =
     (if b = 0 then (if a = 0 then NaN else if 0 < a then PInf else MInf)
      else Fin (a / b))"
| "divide_fl (Fin a) PInf = Fin 0"
| "divide_fl (Fin a) MInf = Fin 0"
| "divide_fl PInf (Fin b) = (if 0 \<le> b then PInf else MInf)"
| "divide_fl MInf (Fin b) = (if 0 \<le> b then MInf else PInf)"
| "divide_fl PInf PInf = NaN"
| "divide_fl PInf MInf = NaN"
| "divide_fl MInf PInf = NaN"
| "divide_fl MInf MInf = NaN"
| "divide_fl NaN b = NaN"
| "divide_fl a NaN = NaN"

definition inverse_fl :: "fl \<Rightarrow> fl" where
  "inverse_fl a = divide (Fin 1) a"

fun less_fl :: "fl \<Rightarrow> fl \<Rightarrow> bool" where
  "less_fl (Fin a) (Fin b) = (a < b)"
| "less_fl (Fin a) PInf = True"
| "less_fl MInf (Fin b) = True"
| "less_fl MInf PInf = True"
| "less_fl a b = False"

definition less_eq_fl :: "fl \<Rightarrow> fl \<Rightarrow> bool" where
  "less_eq_fl a b = (a < b \<or> (a = b \<and> a \<noteq> NaN))"

instance ..

end

text \<open>\<^verbatim>\<open>abs\<close>, \<^verbatim>\<open>np.sqrt\<close> and \<^verbatim>\<open>np.hypot\<close> on one value; \<^verbatim>\<open>hypot\<close> of an infinity and
  anything is infinite, as IEEE 754 has it.\<close>

fun fl_abs :: "fl \<Rightarrow> fl" where
  "fl_abs (Fin a) = Fin \<bar>a\<bar>"
| "fl_abs PInf = PInf"
| "fl_abs MInf = PInf"
| "fl_abs NaN = NaN"

fun fl_sqrt :: "fl \<Rightarrow> fl" where
  "fl_sqrt (Fin a) = (if a < 0 then NaN else Fin (sqrt a))"
| "fl_sqrt PInf = PInf"
| "fl_sqrt MInf = NaN"
| "fl_sqrt NaN = NaN"

fun is_inf :: "fl \<Rightarrow> bool" where
  "is_inf PInf = True"
| "is_inf MInf = True"
| "is_inf a = False"

definition hypot :: "fl \<Rightarrow> fl \<Rightarrow> fl" where
  "hypot a b = (if is_inf a \<or> is_inf b then PInf else fl_sqrt (a * a + b * b))"

fun the_fin :: "fl \<Rightarrow> real" where
  "the_fin (Fin a) = a"
| "the_fin a = 0"

type_synonym vec = "fl \<times> fl"

text \<open>Array arithmetic on the two-component arrays \<^verbatim>\<open>r\<close> and \<^verbatim>\<open>v\<close>: componentwise, a
  scalar is broadcast.\<close>

definition vadd :: "vec \<Rightarrow> vec \<Rightarrow> vec" where
  "vadd a b = (fst a + fst b, snd a + snd b)"

definition vsub :: "vec \<Rightarrow> vec \<Rightarrow> vec" where
  "vsub a b = (fst a - fst b, snd a - snd b)"

definition smul :: "fl \<Rightarrow> vec \<Rightarrow> vec" where
  "smul c a = (c * fst a, c * snd a)"

definition ssub :: "vec \<Rightarrow> fl \<Rightarrow> vec" where
  "ssub a c = (fst a - c, snd a - c)"

definition sadd :: "vec \<Rightarrow> fl \<Rightarrow> vec" where
  "sadd a c = (fst a + c, snd a + c)"

definition dot :: "vec \<Rightarrow> vec \<Rightarrow> fl" where
  "dot a b = fst a * fst b + snd a * snd b"

definition norm2 :: "vec \<Rightarrow> fl" where
  \<comment> \<open>\<^verbatim>\<open>np.linalg.norm(a)\<close>: the square root of the sum of the squares.\<close>
  "norm2 a = fl_sqrt (fst a * fst a + snd a * snd a)"

section \<open>Particle\<close>

text \<open>
  The class \<^verbatim>\<open>Particle\<close>. The attribute \<^verbatim>\<open>styles\<close> only feeds the drawing code and is left
  out. The properties \<^verbatim>\<open>x\<close>, \<^verbatim>\<open>y\<close>, \<^verbatim>\<open>vx\<close>, \<^verbatim>\<open>vy\<close> are the components of \<^verbatim>\<open>r\<close> and \<^verbatim>\<open>v\<close>.
  \<^verbatim>\<open>radius\<close> and \<^verbatim>\<open>mass\<close> are Python floats given by the caller, finite numbers.
\<close>

record particle =
  r :: vec
  v :: vec
  radius :: real
  mass :: real
  delete :: bool

definition Particle_init :: "real \<Rightarrow> real \<Rightarrow> real \<Rightarrow> real \<Rightarrow> real \<Rightarrow> particle" where
  "Particle_init x0 y0 vx0 vy0 rad =
     \<lparr>r = (Fin x0, Fin y0), v = (Fin vx0, Fin vy0), radius = rad, mass = rad ^ 2,
      delete = False\<rparr>"

definition overlaps :: "'a particle_scheme \<Rightarrow> 'b particle_scheme \<Rightarrow> bool" where
  "overlaps p other =
     (hypot (fst (r p) - fst (r other)) (snd (r p) - snd (r other))
        < Fin (radius p + radius other))"

definition Particle_advance :: "'a particle_scheme \<Rightarrow> real \<Rightarrow> 'a particle_scheme" where
  "Particle_advance p step =
     (let p1 = p\<lparr>r := vadd (r p) (smul (Fin step) (v p))\<rparr>
      in p1\<lparr>v := ssub (v p1) (Fin (0.5 * mass p1 * step))\<rparr>)"

section \<open>Boundary reflection\<close>

definition handle_boundary_collisions :: "'a particle_scheme \<Rightarrow> 'a particle_scheme" where
  "handle_boundary_collisions p =
     (let p1 = (if fst (r p) - Fin (radius p) < Fin 0
                then p\<lparr>r := (Fin (radius p), snd (r p)),
                       v := (Fin (- 0.95) * fst (v p), snd (v p))\<rparr>
                else p);
          p2 = (if Fin 1 < fst (r p1) + Fin (radius p1)
                then p1\<lparr>r := (Fin (1 - radius p1), snd (r p1)),
                        v := (Fin (- 0.95) * fst (v p1), snd (v p1))\<rparr>
                else p1);
          p3 = (if snd (r p2) - Fin (radius p2) < Fin 0
                then p2\<lparr>r := (fst (r p2), Fin (radius p2)),
                        v := (fst (v p2), Fin (- 0.95) * snd (v p2))\<rparr>
                else p2);
          p4 = (if Fin 1 < snd (r p3) + Fin (radius p3)
                then p3\<lparr>r := (fst (r p3), Fin (1 - radius p3)),
                        v := (fst (v p3), Fin (- 0.95) * snd (v p3))\<rparr>
                else p3)
      in p4)"

section \<open>Collisions\<close>

datatype error = ZeroDivisionError | IndexError | AssertionError

text \<open>
  \<^verbatim>\<open>change_velocities\<close>. Both new velocities are computed before either is assigned. The
  masses are Python floats, so \<^verbatim>\<open>2*m2 / M\<close> raises \<^verbatim>\<open>ZeroDivisionError\<close> when \<^verbatim>\<open>M\<close> is zero;
  the division by \<^verbatim>\<open>d\<close> is NumPy's and raises nothing.
\<close>

definition change_velocities ::
  "'a particle_scheme \<Rightarrow> 'a particle_scheme \<Rightarrow> error + ('a particle_scheme \<times> 'a particle_scheme)"
where
  "change_velocities p1 p2 =
     (let m1 = mass p1; m2 = mass p2;
          M = m1 + m2;
          r1 = r p1; r2 = r p2;
          d = norm2 (vsub r1 r2) * norm2 (vsub r1 r2);
          v1 = v p1; v2 = v p2
      in if M = 0 then Inl ZeroDivisionError
         else
           let u1 = vsub v1 (smul (((Fin (2 * m2 / M)) * dot (vsub v1 v2) (vsub r1 r2)) / d)
                               (vsub r1 r2));
               u2 = vsub v2 (smul (((Fin (2 * m1 / M)) * dot (vsub v2 v1) (vsub r2 r1)) / d)
                               (vsub r2 r1))
           in Inr (p1\<lparr>v := u1\<rparr>, p2\<lparr>v := u2\<rparr>))"

section \<open>Simulation\<close>

text \<open>
  The class \<^verbatim>\<open>Simulation\<close>: the list of particles, the count \<^verbatim>\<open>n\<close> kept beside it, the tick
  \<^verbatim>\<open>dt\<close> and the field \<^verbatim>\<open>srf\<close>, which comes from outside and is a parameter here, read
  at a grid point. The objects of the list are pairwise distinct (every one is freshly
  constructed), so a list of values indexed by position stands for the list of objects.
\<close>

record 'f simulation =
  particles :: "particle list"
  n :: int
  dt :: real
  srf :: 'f

text \<open>\<^verbatim>\<open>itertools.combinations(range(k), 2)\<close>: the pairs \<open>(i, j)\<close> with \<open>i < j < k\<close>, in
  lexicographic order.\<close>

definition combinations2 :: "nat \<Rightarrow> (nat \<times> nat) list" where
  "combinations2 k = concat (map (\<lambda>i. map (\<lambda>j. (i, j)) [Suc i..<k]) [0..<k])"

fun collide_pairs :: "(nat \<times> nat) list \<Rightarrow> particle list \<Rightarrow> error + particle list" where
  "collide_pairs [] ps = Inr ps"
| "collide_pairs ((i, j) # rest) ps =
     (if length ps \<le> i \<or> length ps \<le> j then Inl IndexError
      else if overlaps (ps ! i) (ps ! j) then
        (case change_velocities (ps ! i) (ps ! j) of
           Inl e \<Rightarrow> Inl e
         | Inr (q1, q2) \<Rightarrow> collide_pairs rest (ps[i := q1, j := q2]))
      else collide_pairs rest ps)"

definition handle_collisions :: "'f simulation \<Rightarrow> error + 'f simulation" where
  "handle_collisions s =
     (case collide_pairs (combinations2 (nat (n s))) (particles s) of
        Inl e \<Rightarrow> Inl e
      | Inr ps \<Rightarrow> Inr (s\<lparr>particles := ps\<rparr>))"

subsection \<open>Field forcing\<close>

definition linspace100 :: "real list" where
  \<comment> \<open>\<^verbatim>\<open>np.linspace(0, 1, 100)\<close>\<close>
  "linspace100 = map (\<lambda>k. real k / 99) [0..<100]"

text \<open>\<^verbatim>\<open>np.argmin\<close>: the index of the first minimum; a NaN counts as the minimum. The
  array it is applied to here always has 100 entries; the empty case is never reached.\<close>

fun argmin_scan :: "nat \<Rightarrow> fl \<Rightarrow> nat \<Rightarrow> fl list \<Rightarrow> nat" where
  "argmin_scan bi bv i [] = bi"
| "argmin_scan bi bv i (a # as) =
     (if bv \<noteq> NaN \<and> (a = NaN \<or> a < bv) then argmin_scan i a (Suc i) as
      else argmin_scan bi bv (Suc i) as)"

definition np_argmin :: "fl list \<Rightarrow> nat" where
  "np_argmin as = (case as of [] \<Rightarrow> 0 | a # rest \<Rightarrow> argmin_scan 0 a 1 rest)"

definition get_grid_inds :: "'a particle_scheme \<Rightarrow> nat \<times> nat" where
  "get_grid_inds p =
     (np_argmin (map (\<lambda>g. fl_abs (Fin g - fst (r p))) linspace100),
      np_argmin (map (\<lambda>g. fl_abs (Fin g - snd (r p))) linspace100))"

definition apply_forces ::
  "(nat \<Rightarrow> nat \<Rightarrow> real \<times> real) option simulation \<Rightarrow> particle \<Rightarrow> particle" where
  "apply_forces s p =
     (case srf s of
        None \<Rightarrow> p
      | Some field \<Rightarrow>
          (let x_ind = fst (get_grid_inds p); y_ind = snd (get_grid_inds p)
           in p\<lparr>v := vadd (v p)
                   (Fin (2 * fst (field x_ind y_ind) * dt s),
                    Fin (2 * snd (field x_ind y_ind) * dt s))\<rparr>))"

subsection \<open>The per-tick update\<close>

text \<open>
  \<^verbatim>\<open>for i, p in enumerate(self.particles)\<close> over a list that the body shortens: the
  list iterator holds an index, compares it with the current length before every step,
  yields the element at the index and increments it. \<^verbatim>\<open>self.particles.remove(p)\<close>
  deletes the first occurrence of the object \<^verbatim>\<open>p\<close>, which is the one at the index just
  yielded.
\<close>

definition remove_at :: "nat \<Rightarrow> 'a list \<Rightarrow> 'a list" where
  "remove_at i xs = take i xs @ drop (Suc i) xs"

function advance_loop ::
  "('f simulation \<Rightarrow> particle \<Rightarrow> particle) \<Rightarrow> nat \<Rightarrow> 'f simulation \<Rightarrow> 'f simulation" where
  "advance_loop body i s =
     (if i < length (particles s) then
        (let p = particles s ! i
         in if delete p
            then advance_loop body (Suc i)
                   (s\<lparr>particles := remove_at i (particles s), n := n s - 1\<rparr>)
            else advance_loop body (Suc i)
                   (s\<lparr>particles := (particles s)[i := body s p]\<rparr>))
      else s)"
  by pat_completeness auto
termination
  by (relation "measure (\<lambda>(body, i, s). length (particles s) - i)")
     (auto simp: remove_at_def)

definition Simulation_body ::
  "(nat \<Rightarrow> nat \<Rightarrow> real \<times> real) option simulation \<Rightarrow> particle \<Rightarrow> particle" where
  \<comment> \<open>\<^verbatim>\<open>p.advance(self.dt); self.handle_boundary_collisions(p); self.apply_forces(p)\<close>\<close>
  "Simulation_body s p =
     apply_forces s (handle_boundary_collisions (Particle_advance p (dt s)))"

definition Simulation_advance ::
  "(nat \<Rightarrow> nat \<Rightarrow> real \<times> real) option simulation
   \<Rightarrow> error + (nat \<Rightarrow> nat \<Rightarrow> real \<times> real) option simulation" where
  "Simulation_advance s = handle_collisions (advance_loop Simulation_body 0 s)"

text \<open>\<^verbatim>\<open>hw1_environment\<close>: the field is a scalar field. A plain \<^verbatim>\<open>Particle\<close> has no attribute
  \<^verbatim>\<open>temperature\<close>, so \<^verbatim>\<open>interact\<close> leaves that step out for it.\<close>

definition interact :: "(nat \<Rightarrow> nat \<Rightarrow> real) simulation \<Rightarrow> particle \<Rightarrow> particle" where
  "interact s p =
     (let p1 = handle_boundary_collisions p;
          x_ind = fst (get_grid_inds p1); y_ind = snd (get_grid_inds p1);
          p2 = (if 0 < srf s x_ind y_ind
                then p1\<lparr>v := sadd (v p1) (Fin (0.075 * srf s x_ind y_ind * dt s))\<rparr>
                else p1);
          p3 = (if srf s x_ind y_ind < 0
                then p2\<lparr>v := sadd (v p2) (Fin (0.01 * srf s x_ind y_ind * dt s))\<rparr>
                else p2)
      in p3)"

definition hw1_body :: "(nat \<Rightarrow> nat \<Rightarrow> real) simulation \<Rightarrow> particle \<Rightarrow> particle" where
  \<comment> \<open>\<^verbatim>\<open>p.advance(self.dt); self.interact(p)\<close>\<close>
  "hw1_body s p = interact s (Particle_advance p (dt s))"

definition hw1_advance ::
  "(nat \<Rightarrow> nat \<Rightarrow> real) simulation \<Rightarrow> error + (nat \<Rightarrow> nat \<Rightarrow> real) simulation" where
  "hw1_advance s = handle_collisions (advance_loop hw1_body 0 s)"

section \<open>Initial placement\<close>

text \<open>
  The random draws are inputs. \<^verbatim>\<open>place_particle\<close> makes four: two for the position
  (\<^verbatim>\<open>np.random.random(2)\<close>), one for the speed and one for the angle, each in \<open>[0, 1)\<close>.
  The angle is multiplied by zero in the source.
\<close>

definition place_particle ::
  "particle list \<Rightarrow> real \<Rightarrow> real \<times> real \<Rightarrow> real \<Rightarrow> real \<Rightarrow> bool \<times> particle list" where
  "place_particle ps rad u12 u3 u4 =
     (let x0 = rad + (1 - 2 * rad) * fst u12;
          y0 = rad + (1 - 2 * rad) * snd u12;
          vr = 0.05 * sqrt u3 + 0.05;
          vphi = 0 * pi * u4;
          vx0 = vr * cos vphi; vy0 = vr * sin vphi;
          particle = Particle_init x0 y0 vx0 vy0 rad
      in if list_ex (\<lambda>p2. overlaps p2 particle) ps then (False, ps)
         else (True, ps @ [particle]))"

text \<open>
  \<^verbatim>\<open>while not self.place_particle(rad, styles): pass\<close>, reading the source of random
  numbers \<open>rng\<close> from position \<open>k\<close> on. The loop has no bound: where it does not end,
  the value is \<open>None\<close>.
\<close>

partial_function (option) place_retry ::
  "(nat \<Rightarrow> real) \<Rightarrow> nat \<Rightarrow> real \<Rightarrow> particle list \<Rightarrow> (nat \<times> particle list) option" where
  "place_retry rng k rad ps =
     (if fst (place_particle ps rad (rng k, rng (k + 1)) (rng (k + 2)) (rng (k + 3)))
      then Some (k + 4,
                 snd (place_particle ps rad (rng k, rng (k + 1)) (rng (k + 2)) (rng (k + 3))))
      else place_retry rng (k + 4) rad
             (snd (place_particle ps rad (rng k, rng (k + 1)) (rng (k + 2)) (rng (k + 3)))))"

fun place_all ::
  "(nat \<Rightarrow> real) \<Rightarrow> nat \<Rightarrow> real list \<Rightarrow> particle list \<Rightarrow> (nat \<times> particle list) option" where
  "place_all rng k [] ps = Some (k, ps)"
| "place_all rng k (rad # rads) ps =
     (case place_retry rng k rad ps of
        None \<Rightarrow> None
      | Some (k', ps') \<Rightarrow> place_all rng k' rads ps')"

text \<open>The argument \<^verbatim>\<open>radius\<close> is one value or a sequence of values.\<close>

datatype radius_arg = Scalar real | Seq "real list"

definition init_particles ::
  "int \<Rightarrow> radius_arg \<Rightarrow> (nat \<Rightarrow> real) \<Rightarrow> (error + int \<times> particle list) option" where
  \<comment> \<open>the result is the pair of the attributes \<^verbatim>\<open>n\<close> and \<^verbatim>\<open>particles\<close>\<close>
  "init_particles k radius_a rng =
     (case radius_a of
        Seq rads \<Rightarrow>
          (if k \<noteq> int (length rads) then Some (Inl AssertionError)
           else map_option (\<lambda>res. Inr (k, snd res)) (place_all rng 0 rads []))
      | Scalar rad \<Rightarrow>
          map_option (\<lambda>res. Inr (k, snd res)) (place_all rng 0 (replicate (nat k) rad) []))"

definition Simulation_init ::
  "int \<Rightarrow> radius_arg \<Rightarrow> 'f \<Rightarrow> (nat \<Rightarrow> real) \<Rightarrow> (error + 'f simulation) option" where
  "Simulation_init k radius_a field rng =
     map_option
       (\<lambda>res. case res of
                 Inl e \<Rightarrow> Inl e
               | Inr (k', ps) \<Rightarrow> Inr \<lparr>particles = ps, n = k', dt = 0.01, srf = field\<rparr>)
       (init_particles k radius_a rng)"

section \<open>The homeostatic agent\<close>

text \<open>
  The class \<^verbatim>\<open>homeostasis_agent\<close>, a \<^verbatim>\<open>Particle\<close> with a food store, a temperature and their
  logs. The two numbers of \<^verbatim>\<open>np.random.uniform(-1, 1, size = 2)\<close> are an input of \<^verbatim>\<open>move\<close>.
\<close>

record homeostasis_agent = particle +
  food_store :: real
  temperature :: real
  set_point :: real
  margin :: real
  temp_log :: "real list"
  food_log :: "real list"

definition homeostasis_agent_init ::
  "real \<Rightarrow> real \<Rightarrow> real \<Rightarrow> real \<Rightarrow> real \<Rightarrow> real \<Rightarrow> homeostasis_agent" where
  "homeostasis_agent_init x0 y0 vx0 vy0 rad food =
     \<lparr>r = (Fin x0, Fin y0), v = (Fin vx0, Fin vy0), radius = rad, mass = rad ^ 2,
      delete = False, food_store = food, temperature = 98, set_point = 98, margin = 2,
      temp_log = [], food_log = []\<rparr>"

definition monitor :: "homeostasis_agent \<Rightarrow> real" where
  "monitor a = temperature a - set_point a"

definition consume :: "homeostasis_agent \<Rightarrow> real \<Rightarrow> homeostasis_agent" where
  "consume a step =
     (let a1 = a\<lparr>food_store := food_store a - 1\<rparr>
      in a1\<lparr>temperature := temperature a1 + 0.1\<rparr>)"

definition move :: "homeostasis_agent \<Rightarrow> real \<Rightarrow> real \<Rightarrow> real \<times> real \<Rightarrow> homeostasis_agent" where
  "move a step boost u =
     (let b = (Fin (fst u * boost), Fin (snd u * boost));
          a1 = a\<lparr>v := vadd (v a) b\<rparr>
      in a1\<lparr>r := vadd (r a1) (smul (Fin step) (v a1))\<rparr>)"

definition exist :: "homeostasis_agent \<Rightarrow> real \<Rightarrow> real \<times> real \<Rightarrow> homeostasis_agent" where
  "exist a step u =
     (let a1 = a\<lparr>v := smul (Fin 0.95) (v a)\<rparr>;
          a2 = move a1 step 0 u;
          a3 = a2\<lparr>temp_log := temp_log a2 @ [temperature a2]\<rparr>;
          a4 = a3\<lparr>food_log := food_log a3 @ [food_store a3]\<rparr>;
          a5 = (if food_store a4 < 0 then a4\<lparr>delete := True\<rparr> else a4);
          a6 = (if temperature a5 < 85 \<or> 105 < temperature a5 then a5\<lparr>delete := True\<rparr>
                else a5)
      in a6)"

definition homeostasis_agent_advance ::
  "homeostasis_agent \<Rightarrow> real \<Rightarrow> real \<times> real \<Rightarrow> real \<times> real \<Rightarrow> homeostasis_agent" where
  \<comment> \<open>\<open>u\<close> is drawn inside \<^verbatim>\<open>exist\<close>, \<open>u'\<close> inside the \<^verbatim>\<open>move\<close> of the policy, when it runs\<close>
  "homeostasis_agent_advance a step u u' =
     (let a1 = exist a step u;
          d_temp = monitor a1
      in if d_temp < margin a1 then consume a1 step
         else if margin a1 < d_temp then move a1 step 0.5 u'
         else a1)"

section \<open>Reference definitions\<close>

text \<open>
  What the design document prescribes, written down separately so that the code can be
  compared with it. Boundary reflection on one axis: the position \<open>c\<close> and the velocity
  component \<open>w\<close> of a particle of radius \<open>rad\<close>.
\<close>

definition reflect_axis :: "real \<Rightarrow> fl \<Rightarrow> fl \<Rightarrow> fl \<times> fl" where
  "reflect_axis rad c w =
     (if c - Fin rad < Fin 0 then (Fin rad, Fin (- 0.95) * w)
      else if Fin 1 < c + Fin rad then (Fin (1 - rad), Fin (- 0.95) * w)
      else (c, w))"

text \<open>The elastic velocity update of the particle of mass \<open>m1\<close> at \<open>c1\<close> moving with
  \<open>w1\<close>, hit by the particle of mass \<open>m2\<close> at \<open>c2\<close> moving with \<open>w2\<close>, over the reals.\<close>

definition elastic_update ::
  "real \<Rightarrow> real \<Rightarrow> real \<times> real \<Rightarrow> real \<times> real \<Rightarrow> real \<times> real \<Rightarrow> real \<times> real \<Rightarrow> real \<times> real" where
  "elastic_update m1 m2 c1 c2 w1 w2 =
     (let k = 2 * m2 / (m1 + m2)
              * (((fst w1 - fst w2) * (fst c1 - fst c2) + (snd w1 - snd w2) * (snd c1 - snd c2))
                 / ((fst c1 - fst c2)\<^sup>2 + (snd c1 - snd c2)\<^sup>2))
      in (fst w1 - k * (fst c1 - fst c2), snd w1 - k * (snd c1 - snd c2)))"

text \<open>Momentum and kinetic energy of a particle whose velocity is finite.\<close>

definition momentum :: "'a particle_scheme \<Rightarrow> real \<times> real" where
  "momentum p = (mass p * the_fin (fst (v p)), mass p * the_fin (snd (v p)))"

definition kinetic_energy :: "'a particle_scheme \<Rightarrow> real" where
  "kinetic_energy p = 1 / 2 * mass p * ((the_fin (fst (v p)))\<^sup>2 + (the_fin (snd (v p)))\<^sup>2)"

section \<open>Example states\<close>

text \<open>Concrete worlds and sources of random numbers on which the theorems below are
  evaluated.\<close>

definition dead_then_live :: "(nat \<Rightarrow> nat \<Rightarrow> real \<times> real) option simulation" where
  "dead_then_live =
     \<lparr>particles = [(Particle_init 0.2 0.2 0.1 0 0.01)\<lparr>delete := True\<rparr>,
                   Particle_init 0.5 0.5 0.1 0 0.01],
      n = 2, dt = 0.01, srf = None\<rparr>"

definition dead_then_dead :: "(nat \<Rightarrow> nat \<Rightarrow> real \<times> real) option simulation" where
  "dead_then_dead =
     \<lparr>particles = [(Particle_init 0.2 0.2 0.1 0 0.01)\<lparr>delete := True\<rparr>,
                   (Particle_init 0.5 0.5 0.1 0 0.01)\<lparr>delete := True\<rparr>],
      n = 2, dt = 0.01, srf = None\<rparr>"

definition live_alone :: "(nat \<Rightarrow> nat \<Rightarrow> real \<times> real) option simulation" where
  "live_alone =
     \<lparr>particles = [Particle_init 0.5 0.5 0.1 0 0.01], n = 1, dt = 0.01, srf = None\<rparr>"

definition zero_field :: "nat \<Rightarrow> nat \<Rightarrow> real" where
  "zero_field i j = 0"

definition hw1_dead_then_live :: "(nat \<Rightarrow> nat \<Rightarrow> real) simulation" where
  "hw1_dead_then_live =
     \<lparr>particles = [(Particle_init 0.2 0.2 0.1 0 0.01)\<lparr>delete := True\<rparr>,
                   Particle_init 0.5 0.5 0.1 0 0.01],
      n = 2, dt = 0.01, srf = zero_field\<rparr>"

definition coincident_pair :: "(nat \<Rightarrow> nat \<Rightarrow> real \<times> real) option simulation" where
  "coincident_pair =
     \<lparr>particles = [Particle_init 0.5 0.5 0.1 0 0.01, Particle_init 0.5 0.5 (- 0.1) 0 0.01],
      n = 2, dt = 0.01, srf = None\<rparr>"

definition three_particles :: "(nat \<Rightarrow> nat \<Rightarrow> real \<times> real) option simulation" where
  "three_particles =
     \<lparr>particles = [Particle_init 0.5 0.5 1 0 0.1, Particle_init 0.6 0.5 0 0 0.1,
                   Particle_init 0.1 0.1 0 0.2 0.05],
      n = 3, dt = 0.01, srf = None\<rparr>"

definition zero_draws :: "nat \<Rightarrow> real" where
  "zero_draws k = 0"

definition half_draws :: "nat \<Rightarrow> real" where
  "half_draws k = 1 / 2"

section \<open>The agent's death condition and policy\<close>

lemma exist_fields:
  "food_store (exist a step u) = food_store a"
  "temperature (exist a step u) = temperature a"
  "set_point (exist a step u) = set_point a"
  "margin (exist a step u) = margin a"
  by (simp_all add: exist_def move_def Let_def)

lemma exist_delete:
  "delete (exist a step u) =
     (delete a \<or> food_store a < 0 \<or> temperature a < 85 \<or> 105 < temperature a)"
  by (simp add: exist_def move_def Let_def)

text \<open>
  Claim C4. After a call of \<^verbatim>\<open>exist\<close> the flag \<^verbatim>\<open>delete\<close> is set exactly if it was set
  before or the food store is below zero or the temperature is outside the closed band
  from 85 to 105. So an agent at temperature 106 is deleted by the call whatever its
  food store, and an agent with a food store of at least zero and a temperature inside
  the band, whose flag was clear, keeps it clear.
\<close>

theorem exist_death_condition:
  "(delete (exist a step u) =
     (delete a \<or> food_store a < 0 \<or> temperature a < 85 \<or> 105 < temperature a))
   \<and> (temperature a = 106 \<longrightarrow> delete (exist a step u))
   \<and> (0 \<le> food_store a \<and> 85 \<le> temperature a \<and> temperature a \<le> 105 \<and> \<not> delete a
        \<longrightarrow> \<not> delete (exist a step u))"
  by (auto simp: exist_delete)

theorem exist_death_condition_witness:
  "temperature ((homeostasis_agent_init 0.5 0.5 1.1 1.1 0.05 100)\<lparr>temperature := 106\<rparr>) = 106
   \<and> delete (exist ((homeostasis_agent_init 0.5 0.5 1.1 1.1 0.05 100)\<lparr>temperature := 106\<rparr>)
                0.01 (0, 0))
   \<and> 0 \<le> food_store (homeostasis_agent_init 0.5 0.5 1.1 1.1 0.05 100)
   \<and> 85 \<le> temperature (homeostasis_agent_init 0.5 0.5 1.1 1.1 0.05 100)
   \<and> temperature (homeostasis_agent_init 0.5 0.5 1.1 1.1 0.05 100) \<le> 105
   \<and> \<not> delete (homeostasis_agent_init 0.5 0.5 1.1 1.1 0.05 100)
   \<and> \<not> delete (exist (homeostasis_agent_init 0.5 0.5 1.1 1.1 0.05 100) 0.01 (0, 0))"
  using exist_death_condition
          [of "(homeostasis_agent_init 0.5 0.5 1.1 1.1 0.05 100)\<lparr>temperature := 106\<rparr>"
              "0.01" "(0, 0)"]
        exist_death_condition [of "homeostasis_agent_init 0.5 0.5 1.1 1.1 0.05 100" "0.01" "(0, 0)"]
  by (simp add: homeostasis_agent_init_def)

lemma fl_add_zero: "a + Fin 0 = a"
  by (cases a) simp_all

lemma exist_motion:
  "v (exist a step u) = smul (Fin 0.95) (v a)"
  "r (exist a step u) = vadd (r a) (smul (Fin step) (smul (Fin 0.95) (v a)))"
  by (simp_all add: exist_def move_def Let_def vadd_def fl_add_zero)

lemma exist_logs:
  "temp_log (exist a step u) = temp_log a @ [temperature a]"
  "food_log (exist a step u) = food_log a @ [food_store a]"
  by (simp_all add: exist_def move_def Let_def)

text \<open>
  Claim C6, on the code. The policy compares \<^verbatim>\<open>monitor()\<close> with the margin itself, not
  its absolute value with it, so an agent inside the tolerance band around its set point
  is not left alone: the agent as constructed, at its set point (\<^verbatim>\<open>monitor() = 0\<close>, margin
  2), consumes in its tick, the food store going from 100 to 99 and the temperature from
  98 to 98.1.
\<close>

theorem homeostasis_agent_advance_consumes_within_band:
  "\<bar>monitor (homeostasis_agent_init 0.5 0.5 1.1 1.1 0.05 100)\<bar>
      \<le> margin (homeostasis_agent_init 0.5 0.5 1.1 1.1 0.05 100)
   \<and> food_store (exist (homeostasis_agent_init 0.5 0.5 1.1 1.1 0.05 100) 0.01 (0, 0)) = 100
   \<and> food_store (homeostasis_agent_advance (homeostasis_agent_init 0.5 0.5 1.1 1.1 0.05 100)
                   0.01 (0, 0) (0.5, 0.5)) = 99
   \<and> temperature (homeostasis_agent_advance (homeostasis_agent_init 0.5 0.5 1.1 1.1 0.05 100)
                   0.01 (0, 0) (0.5, 0.5)) = 98.1"
  by (simp add: homeostasis_agent_advance_def Let_def monitor_def exist_fields consume_def
      homeostasis_agent_init_def)

text \<open>
  Claim C6, amended. One tick of the agent runs \<^verbatim>\<open>exist\<close> and then compares
  \<^verbatim>\<open>monitor() = temperature - set_point\<close> with the margin. Whenever \<^verbatim>\<open>monitor()\<close> is less
  than the margin, which includes the whole tolerance band around the set point short of
  its upper edge, the tick is \<^verbatim>\<open>exist\<close> followed by \<^verbatim>\<open>consume\<close> alone: the food store goes
  down by exactly 1, the temperature up by exactly 0.1, position and velocity are those
  \<^verbatim>\<open>exist\<close> left. When \<^verbatim>\<open>monitor()\<close> is greater than the margin it is \<^verbatim>\<open>exist\<close> followed by
  \<^verbatim>\<open>move\<close> with boost 0.5 alone: food store and temperature stay, the velocity gains 0.5
  times the random pair and the position gains the tick times the new velocity. Only
  when \<^verbatim>\<open>monitor()\<close> equals the margin is the tick \<^verbatim>\<open>exist\<close> and nothing more. \<^verbatim>\<open>exist\<close>
  itself multiplies the velocity by 0.95, moves the position by the tick times that
  velocity, logs temperature and food store and changes neither.
\<close>

theorem homeostasis_agent_advance_policy:
  "(temperature a - set_point a < margin a \<longrightarrow>
       homeostasis_agent_advance a step u u' = consume (exist a step u) step
     \<and> food_store (homeostasis_agent_advance a step u u') = food_store a - 1
     \<and> temperature (homeostasis_agent_advance a step u u') = temperature a + 0.1
     \<and> r (homeostasis_agent_advance a step u u') = r (exist a step u)
     \<and> v (homeostasis_agent_advance a step u u') = v (exist a step u))
 \<and> (margin a < temperature a - set_point a \<longrightarrow>
       homeostasis_agent_advance a step u u' = move (exist a step u) step 0.5 u'
     \<and> food_store (homeostasis_agent_advance a step u u') = food_store a
     \<and> temperature (homeostasis_agent_advance a step u u') = temperature a
     \<and> v (homeostasis_agent_advance a step u u')
         = vadd (v (exist a step u)) (Fin (fst u' * 0.5), Fin (snd u' * 0.5))
     \<and> r (homeostasis_agent_advance a step u u')
         = vadd (r (exist a step u))
             (smul (Fin step)
                (vadd (v (exist a step u)) (Fin (fst u' * 0.5), Fin (snd u' * 0.5)))))
 \<and> (temperature a - set_point a = margin a \<longrightarrow>
       homeostasis_agent_advance a step u u' = exist a step u)
 \<and> v (exist a step u) = smul (Fin 0.95) (v a)
 \<and> r (exist a step u) = vadd (r a) (smul (Fin step) (smul (Fin 0.95) (v a)))
 \<and> food_store (exist a step u) = food_store a
 \<and> temperature (exist a step u) = temperature a
 \<and> temp_log (exist a step u) = temp_log a @ [temperature a]
 \<and> food_log (exist a step u) = food_log a @ [food_store a]"
  by (simp add: homeostasis_agent_advance_def Let_def monitor_def exist_fields exist_motion
      exist_logs consume_def move_def)

theorem homeostasis_agent_advance_policy_witness:
  "food_store (homeostasis_agent_advance
         ((homeostasis_agent_init 0.5 0.5 1.1 1.1 0.05 100)\<lparr>temperature := 99\<rparr>)
         0.01 (0, 0) (0.5, 0.5)) = 99
   \<and> temperature (homeostasis_agent_advance
         ((homeostasis_agent_init 0.5 0.5 1.1 1.1 0.05 100)\<lparr>temperature := 99\<rparr>)
         0.01 (0, 0) (0.5, 0.5)) = 99.1
   \<and> food_store (homeostasis_agent_advance
         ((homeostasis_agent_init 0.5 0.5 1.1 1.1 0.05 100)\<lparr>temperature := 101\<rparr>)
         0.01 (0, 0) (0.5, 0.5)) = 100
   \<and> temperature (homeostasis_agent_advance
         ((homeostasis_agent_init 0.5 0.5 1.1 1.1 0.05 100)\<lparr>temperature := 101\<rparr>)
         0.01 (0, 0) (0.5, 0.5)) = 101
   \<and> v (homeostasis_agent_advance
         ((homeostasis_agent_init 0.5 0.5 1.1 1.1 0.05 100)\<lparr>temperature := 101\<rparr>)
         0.01 (0, 0) (0.5, 0.5)) = (Fin 1.295, Fin 1.295)
   \<and> r (homeostasis_agent_advance
         ((homeostasis_agent_init 0.5 0.5 1.1 1.1 0.05 100)\<lparr>temperature := 101\<rparr>)
         0.01 (0, 0) (0.5, 0.5)) = (Fin 0.5234, Fin 0.5234)
   \<and> homeostasis_agent_advance
         ((homeostasis_agent_init 0.5 0.5 1.1 1.1 0.05 100)\<lparr>temperature := 100\<rparr>)
         0.01 (0, 0) (0.5, 0.5)
       = exist ((homeostasis_agent_init 0.5 0.5 1.1 1.1 0.05 100)\<lparr>temperature := 100\<rparr>)
           0.01 (0, 0)"
  using homeostasis_agent_advance_policy
          [of "(homeostasis_agent_init 0.5 0.5 1.1 1.1 0.05 100)\<lparr>temperature := 99\<rparr>"
              "0.01" "(0, 0)" "(0.5, 0.5)"]
        homeostasis_agent_advance_policy
          [of "(homeostasis_agent_init 0.5 0.5 1.1 1.1 0.05 100)\<lparr>temperature := 101\<rparr>"
              "0.01" "(0, 0)" "(0.5, 0.5)"]
        homeostasis_agent_advance_policy
          [of "(homeostasis_agent_init 0.5 0.5 1.1 1.1 0.05 100)\<lparr>temperature := 100\<rparr>"
              "0.01" "(0, 0)" "(0.5, 0.5)"]
  by (simp add: homeostasis_agent_init_def consume_def move_def exist_fields exist_motion Let_def
      vadd_def smul_def)

section \<open>Boundary reflection, axis by axis\<close>

text \<open>
  Claim C5, as the code has it. The four tests run one after the other, so a particle
  wider than the domain (radius above 1/2) that crosses the lower wall is clamped to
  \<open>radius\<close>, then crosses the upper wall and is clamped again: its velocity component
  is multiplied by \<open>0.95\<^sup>2\<close> and keeps its sign. The particle of radius 0.6 at
  \<open>x = 0.5\<close> with \<open>vx = 1\<close> crosses the wall at 0 and leaves with \<open>vx = 0.9025\<close>, not
  \<open>-0.95\<close>.
\<close>

theorem handle_boundary_collisions_wide_particle:
  "fst (r (Particle_init (1/2) (1/2) 1 0 (3/5))) - Fin (radius (Particle_init (1/2) (1/2) 1 0 (3/5)))
     < Fin 0
   \<and> fst (v (handle_boundary_collisions (Particle_init (1/2) (1/2) 1 0 (3/5)))) = Fin (361/400)
   \<and> fst (v (handle_boundary_collisions (Particle_init (1/2) (1/2) 1 0 (3/5))))
       \<noteq> Fin (- 0.95) * fst (v (Particle_init (1/2) (1/2) 1 0 (3/5)))
   \<and> fst (r (handle_boundary_collisions (Particle_init (1/2) (1/2) 1 0 (3/5)))) = Fin (2/5)"
  by (simp add: handle_boundary_collisions_def Let_def minus_fl_def Particle_init_def)

text \<open>
  Claim C5, amended. For a particle of radius at most 1/2, one call of
  \<^verbatim>\<open>handle_boundary_collisions\<close> treats each axis on its own, as \<open>reflect_axis\<close> says: where
  \<open>position - radius < 0\<close> the position becomes \<open>radius\<close>, else where
  \<open>position + radius > 1\<close> it becomes \<open>1 - radius\<close>, and in both cases the velocity
  component on that axis is multiplied by \<open>-0.95\<close>; otherwise the axis is untouched.
  Radius, mass and flag stay. A particle of radius 0.01 at \<open>x = 0.005\<close> with
  \<open>vx = -1\<close> leaves the call with \<open>x = 0.01\<close> and \<open>vx = 0.95\<close>.
\<close>

theorem handle_boundary_collisions_axes:
  "radius p \<le> 1 / 2 \<Longrightarrow>
   handle_boundary_collisions p =
     p\<lparr>r := (fst (reflect_axis (radius p) (fst (r p)) (fst (v p))),
             fst (reflect_axis (radius p) (snd (r p)) (snd (v p)))),
       v := (snd (reflect_axis (radius p) (fst (r p)) (fst (v p))),
             snd (reflect_axis (radius p) (snd (r p)) (snd (v p))))\<rparr>
   \<and> (fst (r p) = Fin 0.005 \<and> fst (v p) = Fin (- 1) \<and> radius p = 0.01 \<longrightarrow>
        fst (r (handle_boundary_collisions p)) = Fin 0.01
      \<and> fst (v (handle_boundary_collisions p)) = Fin 0.95)"
  by (simp add: handle_boundary_collisions_def reflect_axis_def Let_def minus_fl_def)

theorem handle_boundary_collisions_axes_witness:
  "radius (Particle_init 0.005 0.5 (- 1) 0 0.01) \<le> 1 / 2
   \<and> fst (r (Particle_init 0.005 0.5 (- 1) 0 0.01)) = Fin 0.005
   \<and> fst (v (Particle_init 0.005 0.5 (- 1) 0 0.01)) = Fin (- 1)
   \<and> radius (Particle_init 0.005 0.5 (- 1) 0 0.01) = 0.01
   \<and> fst (r (handle_boundary_collisions (Particle_init 0.005 0.5 (- 1) 0 0.01))) = Fin 0.01
   \<and> fst (v (handle_boundary_collisions (Particle_init 0.005 0.5 (- 1) 0 0.01))) = Fin 0.95
   \<and> snd (r (handle_boundary_collisions (Particle_init 0.005 0.5 (- 1) 0 0.01))) = Fin 0.5"
  using handle_boundary_collisions_axes [of "Particle_init 0.005 0.5 (- 1) 0 0.01"]
  by (simp add: Particle_init_def reflect_axis_def minus_fl_def)

section \<open>Overlap and the elastic update on finite values\<close>

lemma sqrt_less_iff: "0 \<le> a \<Longrightarrow> sqrt a < s \<longleftrightarrow> 0 < s \<and> a < s\<^sup>2"
proof (cases "0 < s")
  case True
  have "sqrt a < s \<longleftrightarrow> sqrt a < sqrt (s\<^sup>2)" using True by simp
  also have "\<dots> \<longleftrightarrow> a < s\<^sup>2" by (rule real_sqrt_less_iff)
  finally show ?thesis using True by simp
next
  case False
  assume a: "0 \<le> a"
  from real_sqrt_ge_zero[OF a] False show ?thesis by linarith
qed

lemma overlaps_fin:
  assumes "r p = (Fin x1, Fin y1)" "r q = (Fin x2, Fin y2)"
  shows "overlaps p q \<longleftrightarrow> 0 < radius p + radius q
        \<and> (x1 - x2)\<^sup>2 + (y1 - y2)\<^sup>2 < (radius p + radius q)\<^sup>2"
proof -
  have nn: "0 \<le> (x1 - x2) * (x1 - x2) + (y1 - y2) * (y1 - y2)" by simp
  have nn': "\<not> (x1 - x2) * (x1 - x2) + (y1 - y2) * (y1 - y2) < 0"
    using nn by (rule leD)
  have "overlaps p q
        \<longleftrightarrow> sqrt ((x1 - x2) * (x1 - x2) + (y1 - y2) * (y1 - y2)) < radius p + radius q"
    by (simp add: overlaps_def hypot_def assms minus_fl_def nn')
  also have "\<dots> \<longleftrightarrow> 0 < radius p + radius q
      \<and> (x1 - x2) * (x1 - x2) + (y1 - y2) * (y1 - y2) < (radius p + radius q)\<^sup>2"
    by (rule sqrt_less_iff[OF nn])
  finally show ?thesis by (simp add: power2_eq_square)
qed

lemma overlaps_cong:
  "r p = r p' \<Longrightarrow> radius p = radius p' \<Longrightarrow> r q = r q' \<Longrightarrow> radius q = radius q'
   \<Longrightarrow> overlaps p q = overlaps p' q'"
  by (simp add: overlaps_def)

lemma sq_dist_pos:
  fixes x1 y1 x2 y2 :: real
  assumes "(x1, y1) \<noteq> (x2, y2)"
  shows "0 < (x1 - x2) * (x1 - x2) + (y1 - y2) * (y1 - y2)"
proof -
  from assms have "x1 - x2 \<noteq> 0 \<or> y1 - y2 \<noteq> 0" by auto
  then have "0 < (x1 - x2)\<^sup>2 + (y1 - y2)\<^sup>2"
    by (metis sum_power2_gt_zero_iff)
  then show ?thesis by (simp add: power2_eq_square)
qed

lemma norm2_sq:
  "norm2 (vsub (Fin x1, Fin y1) (Fin x2, Fin y2)) * norm2 (vsub (Fin x1, Fin y1) (Fin x2, Fin y2))
     = Fin ((x1 - x2) * (x1 - x2) + (y1 - y2) * (y1 - y2))"
  by (simp add: norm2_def vsub_def minus_fl_def not_less)

lemma change_velocities_fin:
  assumes "r p1 = (Fin x1, Fin y1)" "r p2 = (Fin x2, Fin y2)"
      "v p1 = (Fin a1, Fin b1)" "v p2 = (Fin a2, Fin b2)"
      "(x1, y1) \<noteq> (x2, y2)" "mass p1 + mass p2 \<noteq> 0"
  shows "change_velocities p1 p2 =
     Inr (p1\<lparr>v := (Fin (fst (elastic_update (mass p1) (mass p2) (x1, y1) (x2, y2) (a1, b1) (a2, b2))),
                   Fin (snd (elastic_update (mass p1) (mass p2) (x1, y1) (x2, y2) (a1, b1) (a2, b2))))\<rparr>,
          p2\<lparr>v := (Fin (fst (elastic_update (mass p2) (mass p1) (x2, y2) (x1, y1) (a2, b2) (a1, b1))),
                   Fin (snd (elastic_update (mass p2) (mass p1) (x2, y2) (x1, y1) (a2, b2) (a1, b1))))\<rparr>)"
proof -
  have d1: "(x1 - x2) * (x1 - x2) + (y1 - y2) * (y1 - y2) \<noteq> 0"
    using sq_dist_pos[OF assms(5)] by linarith
  have e: "(x2 - x1) * (x2 - x1) + (y2 - y1) * (y2 - y1)
             = (x1 - x2) * (x1 - x2) + (y1 - y2) * (y1 - y2)"
    by (simp add: algebra_simps)
  have ne: "\<not> (x1 = x2 \<and> y1 = y2)" using assms(5) by simp
  show ?thesis
    using assms(6) d1 ne
    apply (simp add: change_velocities_def Let_def assms(1-4) norm2_sq)
    apply (simp add: vsub_def smul_def dot_def minus_fl_def elastic_update_def Let_def
        power2_eq_square e)
    done
qed

text \<open>Coincident centres: the squared distance is zero and so is the scalar product in
  the dividend; NumPy's \<open>0 / 0\<close> is NaN, and it spreads to all four components.\<close>

lemma change_velocities_coincident:
  assumes "r p1 = (Fin x1, Fin y1)" "r p2 = (Fin x1, Fin y1)"
      "v p1 = (Fin a1, Fin b1)" "v p2 = (Fin a2, Fin b2)" "mass p1 + mass p2 \<noteq> 0"
  shows "change_velocities p1 p2 = Inr (p1\<lparr>v := (NaN, NaN)\<rparr>, p2\<lparr>v := (NaN, NaN)\<rparr>)"
  using assms(5)
  by (simp add: change_velocities_def Let_def assms(1-4) norm2_def vsub_def smul_def dot_def
      minus_fl_def)

lemma change_velocities_frame:
  "change_velocities p1 p2 = Inr (q1, q2) \<Longrightarrow> q1 = p1\<lparr>v := v q1\<rparr> \<and> q2 = p2\<lparr>v := v q2\<rparr>"
  by (auto simp: change_velocities_def Let_def split: if_splits)

subsection \<open>Conservation over the reals\<close>

lemma elastic_update_fst:
  "elastic_update m1 m2 (x1, y1) (x2, y2) (a1, b1) (a2, b2) =
     (a1 - 2 * m2 / (m1 + m2)
             * (((a1 - a2) * (x1 - x2) + (b1 - b2) * (y1 - y2)) / ((x1 - x2)\<^sup>2 + (y1 - y2)\<^sup>2))
             * (x1 - x2),
      b1 - 2 * m2 / (m1 + m2)
             * (((a1 - a2) * (x1 - x2) + (b1 - b2) * (y1 - y2)) / ((x1 - x2)\<^sup>2 + (y1 - y2)\<^sup>2))
             * (y1 - y2))"
  by (simp add: elastic_update_def Let_def)

lemma elastic_update_snd:
  "elastic_update m2 m1 (x2, y2) (x1, y1) (a2, b2) (a1, b1) =
     (a2 + 2 * m1 / (m1 + m2)
             * (((a1 - a2) * (x1 - x2) + (b1 - b2) * (y1 - y2)) / ((x1 - x2)\<^sup>2 + (y1 - y2)\<^sup>2))
             * (x1 - x2),
      b2 + 2 * m1 / (m1 + m2)
             * (((a1 - a2) * (x1 - x2) + (b1 - b2) * (y1 - y2)) / ((x1 - x2)\<^sup>2 + (y1 - y2)\<^sup>2))
             * (y1 - y2))"
proof -
  have n: "(a2 - a1) * (x2 - x1) + (b2 - b1) * (y2 - y1)
         = (a1 - a2) * (x1 - x2) + (b1 - b2) * (y1 - y2)"
    by (simp add: algebra_simps)
  have d: "(x2 - x1)\<^sup>2 + (y2 - y1)\<^sup>2 = (x1 - x2)\<^sup>2 + (y1 - y2)\<^sup>2"
    by (simp add: power2_commute)
  have s1: "c2 - k * (x2 - x1) = c2 + k * (x1 - x2)" for c2 k :: real
    by (simp add: algebra_simps)
  have s2: "c2 - k * (y2 - y1) = c2 + k * (y1 - y2)" for c2 k :: real
    by (simp add: algebra_simps)
  show ?thesis
    unfolding elastic_update_fst n d s1 s2 by (simp only: add.commute[of m2 m1])
qed

lemma elastic_momentum:
  fixes m1 m2 a1 a2 k d :: real
  shows "m1 * (a1 - 2 * m2 / (m1 + m2) * k * d) + m2 * (a2 + 2 * m1 / (m1 + m2) * k * d)
       = m1 * a1 + m2 * a2"
proof -
  have "m1 * (2 * m2 / (m1 + m2) * k * d) = m2 * (2 * m1 / (m1 + m2) * k * d)"
    by simp
  then show ?thesis by (simp only: right_diff_distrib distrib_left)
qed

lemma elastic_energy:
  fixes m1 m2 dx dy a1 b1 a2 b2 :: real
  assumes M: "m1 + m2 \<noteq> 0" and D: "dx\<^sup>2 + dy\<^sup>2 \<noteq> 0"
  defines "k \<equiv> ((a1 - a2) * dx + (b1 - b2) * dy) / (dx\<^sup>2 + dy\<^sup>2)"
  shows "m1 * ((a1 - 2 * m2 / (m1 + m2) * k * dx)\<^sup>2 + (b1 - 2 * m2 / (m1 + m2) * k * dy)\<^sup>2)
       + m2 * ((a2 + 2 * m1 / (m1 + m2) * k * dx)\<^sup>2 + (b2 + 2 * m1 / (m1 + m2) * k * dy)\<^sup>2)
       = m1 * (a1\<^sup>2 + b1\<^sup>2) + m2 * (a2\<^sup>2 + b2\<^sup>2)"
proof -
  define c1 where "c1 = 2 * m2 / (m1 + m2)"
  define c2 where "c2 = 2 * m1 / (m1 + m2)"
  have kd: "k * (dx\<^sup>2 + dy\<^sup>2) = (a1 - a2) * dx + (b1 - b2) * dy"
    using D by (simp add: k_def)
  have mc: "m1 * c1 = m2 * c2" by (simp add: c1_def c2_def)
  have cc: "m1 * c1\<^sup>2 + m2 * c2\<^sup>2 = 2 * (m1 * c1)"
  proof -
    have "m1 * c1\<^sup>2 + m2 * c2\<^sup>2 = (m1 * c1) * c1 + (m2 * c2) * c2"
      by (simp add: power2_eq_square algebra_simps)
    also have "\<dots> = (m1 * c1) * c1 + (m1 * c1) * c2" by (simp only: mc)
    also have "\<dots> = (m1 * c1) * (c1 + c2)" by (simp only: distrib_left)
    also have "c1 + c2 = 2"
    proof -
      have "c1 + c2 = (2 * m2 + 2 * m1) / (m1 + m2)"
        by (simp only: c1_def c2_def add_divide_distrib)
      also have "2 * m2 + 2 * m1 = 2 * (m1 + m2)" by simp
      also have "2 * (m1 + m2) / (m1 + m2) = 2"
        using M by (rule nonzero_mult_div_cancel_right)
      finally show ?thesis .
    qed
    finally show ?thesis by simp
  qed
  have "m1 * ((a1 - c1 * k * dx)\<^sup>2 + (b1 - c1 * k * dy)\<^sup>2)
       + m2 * ((a2 + c2 * k * dx)\<^sup>2 + (b2 + c2 * k * dy)\<^sup>2)
      = m1 * (a1\<^sup>2 + b1\<^sup>2) + m2 * (a2\<^sup>2 + b2\<^sup>2)
        - 2 * (m1 * c1) * k * (a1 * dx + b1 * dy) + 2 * (m2 * c2) * k * (a2 * dx + b2 * dy)
        + (m1 * c1\<^sup>2 + m2 * c2\<^sup>2) * k * (k * (dx\<^sup>2 + dy\<^sup>2))"
    by (simp add: power2_eq_square algebra_simps)
  also have "\<dots> = m1 * (a1\<^sup>2 + b1\<^sup>2) + m2 * (a2\<^sup>2 + b2\<^sup>2)
        - 2 * (m1 * c1) * k * ((a1 - a2) * dx + (b1 - b2) * dy)
        + 2 * (m1 * c1) * k * (k * (dx\<^sup>2 + dy\<^sup>2))"
    unfolding cc mc[symmetric] by (simp add: algebra_simps)
  also have "\<dots> = m1 * (a1\<^sup>2 + b1\<^sup>2) + m2 * (a2\<^sup>2 + b2\<^sup>2)"
    unfolding kd by simp
  finally show ?thesis unfolding c1_def c2_def .
qed

text \<open>
  Claim C3. When \<^verbatim>\<open>change_velocities\<close> runs on two particles with finite positions and
  velocities, distinct centres and a total mass that is not zero, it returns, it changes
  nothing but the two velocities, each new velocity is the elastic update computed from
  the velocities both particles had before the call, and the total momentum (either
  component) and the total kinetic energy are the same after as before, exactly.
\<close>

theorem change_velocities_conserves:
  assumes "r p1 = (Fin x1, Fin y1)" "r p2 = (Fin x2, Fin y2)"
      "v p1 = (Fin a1, Fin b1)" "v p2 = (Fin a2, Fin b2)"
      "(x1, y1) \<noteq> (x2, y2)" "mass p1 + mass p2 \<noteq> 0"
  shows "\<exists>q1 q2. change_velocities p1 p2 = Inr (q1, q2)
     \<and> q1 = p1\<lparr>v := v q1\<rparr> \<and> q2 = p2\<lparr>v := v q2\<rparr>
     \<and> v q1 = (Fin (fst (elastic_update (mass p1) (mass p2) (x1, y1) (x2, y2) (a1, b1) (a2, b2))),
               Fin (snd (elastic_update (mass p1) (mass p2) (x1, y1) (x2, y2) (a1, b1) (a2, b2))))
     \<and> v q2 = (Fin (fst (elastic_update (mass p2) (mass p1) (x2, y2) (x1, y1) (a2, b2) (a1, b1))),
               Fin (snd (elastic_update (mass p2) (mass p1) (x2, y2) (x1, y1) (a2, b2) (a1, b1))))
     \<and> fst (momentum q1) + fst (momentum q2) = fst (momentum p1) + fst (momentum p2)
     \<and> snd (momentum q1) + snd (momentum q2) = snd (momentum p1) + snd (momentum p2)
     \<and> kinetic_energy q1 + kinetic_energy q2 = kinetic_energy p1 + kinetic_energy p2"
proof -
  define k where
    "k = ((a1 - a2) * (x1 - x2) + (b1 - b2) * (y1 - y2)) / ((x1 - x2)\<^sup>2 + (y1 - y2)\<^sup>2)"
  define m1 where "m1 = mass p1"
  define m2 where "m2 = mass p2"
  define q1 where "q1 = p1\<lparr>v := (Fin (a1 - 2 * m2 / (m1 + m2) * k * (x1 - x2)),
                                Fin (b1 - 2 * m2 / (m1 + m2) * k * (y1 - y2)))\<rparr>"
  define q2 where "q2 = p2\<lparr>v := (Fin (a2 + 2 * m1 / (m1 + m2) * k * (x1 - x2)),
                                Fin (b2 + 2 * m1 / (m1 + m2) * k * (y1 - y2)))\<rparr>"
  have M: "m1 + m2 \<noteq> 0" using assms(6) by (simp add: m1_def m2_def)
  have D: "(x1 - x2)\<^sup>2 + (y1 - y2)\<^sup>2 \<noteq> 0"
    using assms(5) by simp
  have u1: "elastic_update (mass p1) (mass p2) (x1, y1) (x2, y2) (a1, b1) (a2, b2)
          = (a1 - 2 * m2 / (m1 + m2) * k * (x1 - x2), b1 - 2 * m2 / (m1 + m2) * k * (y1 - y2))"
    unfolding elastic_update_fst k_def m1_def m2_def ..
  have u2: "elastic_update (mass p2) (mass p1) (x2, y2) (x1, y1) (a2, b2) (a1, b1)
          = (a2 + 2 * m1 / (m1 + m2) * k * (x1 - x2), b2 + 2 * m1 / (m1 + m2) * k * (y1 - y2))"
    unfolding elastic_update_snd k_def m1_def m2_def ..
  have cv: "change_velocities p1 p2 = Inr (q1, q2)"
    unfolding change_velocities_fin[OF assms] u1 u2 q1_def q2_def by simp
  have mx: "m1 * (a1 - 2 * m2 / (m1 + m2) * k * (x1 - x2))
          + m2 * (a2 + 2 * m1 / (m1 + m2) * k * (x1 - x2)) = m1 * a1 + m2 * a2"
    by (rule elastic_momentum)
  have my: "m1 * (b1 - 2 * m2 / (m1 + m2) * k * (y1 - y2))
          + m2 * (b2 + 2 * m1 / (m1 + m2) * k * (y1 - y2)) = m1 * b1 + m2 * b2"
    by (rule elastic_momentum)
  have en: "m1 * ((a1 - 2 * m2 / (m1 + m2) * k * (x1 - x2))\<^sup>2
                 + (b1 - 2 * m2 / (m1 + m2) * k * (y1 - y2))\<^sup>2)
       + m2 * ((a2 + 2 * m1 / (m1 + m2) * k * (x1 - x2))\<^sup>2
                 + (b2 + 2 * m1 / (m1 + m2) * k * (y1 - y2))\<^sup>2)
       = m1 * (a1\<^sup>2 + b1\<^sup>2) + m2 * (a2\<^sup>2 + b2\<^sup>2)"
    unfolding k_def by (rule elastic_energy[OF M D])
  have ke: "kinetic_energy q1 + kinetic_energy q2 = kinetic_energy p1 + kinetic_energy p2"
  proof -
    have "kinetic_energy q1 + kinetic_energy q2
        = 1 / 2 * (m1 * ((a1 - 2 * m2 / (m1 + m2) * k * (x1 - x2))\<^sup>2
                          + (b1 - 2 * m2 / (m1 + m2) * k * (y1 - y2))\<^sup>2)
       + m2 * ((a2 + 2 * m1 / (m1 + m2) * k * (x1 - x2))\<^sup>2
                 + (b2 + 2 * m1 / (m1 + m2) * k * (y1 - y2))\<^sup>2))"
      by (simp add: kinetic_energy_def q1_def q2_def m1_def m2_def distrib_left)
    also have "\<dots> = 1 / 2 * (m1 * (a1\<^sup>2 + b1\<^sup>2) + m2 * (a2\<^sup>2 + b2\<^sup>2))"
      by (simp only: en)
    also have "\<dots> = kinetic_energy p1 + kinetic_energy p2"
      by (simp add: kinetic_energy_def assms(3,4) m1_def m2_def distrib_left)
    finally show ?thesis .
  qed
  have "q1 = p1\<lparr>v := v q1\<rparr>" "q2 = p2\<lparr>v := v q2\<rparr>" by (simp_all add: q1_def q2_def)
  moreover have
    "v q1 = (Fin (fst (elastic_update (mass p1) (mass p2) (x1, y1) (x2, y2) (a1, b1) (a2, b2))),
             Fin (snd (elastic_update (mass p1) (mass p2) (x1, y1) (x2, y2) (a1, b1) (a2, b2))))"
    unfolding u1 by (simp add: q1_def)
  moreover have
    "v q2 = (Fin (fst (elastic_update (mass p2) (mass p1) (x2, y2) (x1, y1) (a2, b2) (a1, b1))),
             Fin (snd (elastic_update (mass p2) (mass p1) (x2, y2) (x1, y1) (a2, b2) (a1, b1))))"
    unfolding u2 by (simp add: q2_def)
  moreover have "fst (momentum q1) + fst (momentum q2) = fst (momentum p1) + fst (momentum p2)"
    using mx by (simp add: momentum_def q1_def q2_def assms(3,4) m1_def m2_def)
  moreover have "snd (momentum q1) + snd (momentum q2) = snd (momentum p1) + snd (momentum p2)"
    using my by (simp add: momentum_def q1_def q2_def assms(3,4) m1_def m2_def)
  ultimately show ?thesis using cv ke by blast
qed

theorem change_velocities_conserves_witness:
  "r (Particle_init 0.5 0.5 1 0 0.1) = (Fin 0.5, Fin 0.5)
   \<and> r (Particle_init 0.6 0.5 0 0 0.1) = (Fin 0.6, Fin 0.5)
   \<and> v (Particle_init 0.5 0.5 1 0 0.1) = (Fin 1, Fin 0)
   \<and> v (Particle_init 0.6 0.5 0 0 0.1) = (Fin 0, Fin 0)
   \<and> ((0.5, 0.5) :: real \<times> real) \<noteq> (0.6, 0.5)
   \<and> mass (Particle_init 0.5 0.5 1 0 0.1) + mass (Particle_init 0.6 0.5 0 0 0.1) \<noteq> 0
   \<and> change_velocities (Particle_init 0.5 0.5 1 0 0.1) (Particle_init 0.6 0.5 0 0 0.1)
       = Inr (Particle_init 0.5 0.5 0 0 0.1, Particle_init 0.6 0.5 1 0 0.1)"
proof -
  have h: "r (Particle_init 0.5 0.5 1 0 0.1) = (Fin 0.5, Fin 0.5)"
      "r (Particle_init 0.6 0.5 0 0 0.1) = (Fin 0.6, Fin 0.5)"
      "v (Particle_init 0.5 0.5 1 0 0.1) = (Fin 1, Fin 0)"
      "v (Particle_init 0.6 0.5 0 0 0.1) = (Fin 0, Fin 0)"
      "((0.5, 0.5) :: real \<times> real) \<noteq> (0.6, 0.5)"
      "mass (Particle_init 0.5 0.5 1 0 0.1) + mass (Particle_init 0.6 0.5 0 0 0.1) \<noteq> 0"
    by (simp_all add: Particle_init_def)
  from change_velocities_conserves[OF h]
  obtain q1 q2 where
    cv: "change_velocities (Particle_init 0.5 0.5 1 0 0.1) (Particle_init 0.6 0.5 0 0 0.1)
          = Inr (q1, q2)"
    and fr: "q1 = (Particle_init 0.5 0.5 1 0 0.1)\<lparr>v := v q1\<rparr>"
        "q2 = (Particle_init 0.6 0.5 0 0 0.1)\<lparr>v := v q2\<rparr>"
    and vs: "v q1 = (Fin (fst (elastic_update (mass (Particle_init 0.5 0.5 1 0 0.1))
                 (mass (Particle_init 0.6 0.5 0 0 0.1)) (0.5, 0.5) (0.6, 0.5) (1, 0) (0, 0))),
              Fin (snd (elastic_update (mass (Particle_init 0.5 0.5 1 0 0.1))
                 (mass (Particle_init 0.6 0.5 0 0 0.1)) (0.5, 0.5) (0.6, 0.5) (1, 0) (0, 0))))"
        "v q2 = (Fin (fst (elastic_update (mass (Particle_init 0.6 0.5 0 0 0.1))
                 (mass (Particle_init 0.5 0.5 1 0 0.1)) (0.6, 0.5) (0.5, 0.5) (0, 0) (1, 0))),
              Fin (snd (elastic_update (mass (Particle_init 0.6 0.5 0 0 0.1))
                 (mass (Particle_init 0.5 0.5 1 0 0.1)) (0.6, 0.5) (0.5, 0.5) (0, 0) (1, 0))))"
    by blast
  have "v q1 = (Fin 0, Fin 0)"
    unfolding vs by (simp add: elastic_update_def Let_def Particle_init_def power2_eq_square)
  with fr(1) have q1: "q1 = Particle_init 0.5 0.5 0 0 0.1"
    by (simp add: Particle_init_def)
  have "v q2 = (Fin 1, Fin 0)"
    unfolding vs by (simp add: elastic_update_def Let_def Particle_init_def power2_eq_square)
  with fr(2) have q2: "q2 = Particle_init 0.6 0.5 1 0 0.1"
    by (simp add: Particle_init_def)
  show ?thesis using h cv q1 q2 by simp
qed

section \<open>Coincident centres\<close>

text \<open>
  Claim C2, on the code. Two particles of radius 0.01 with the same centre overlap, so
  the collision pass calls \<^verbatim>\<open>change_velocities\<close> on them: the pair is not skipped. No
  exception is raised and the pass runs to its end, but both velocities come out as
  NaN in both components, where the claim has them unchanged.
\<close>

theorem handle_collisions_coincident_pair:
  "overlaps (particles coincident_pair ! 0) (particles coincident_pair ! 1)
   \<and> handle_collisions coincident_pair =
       Inr (coincident_pair
              \<lparr>particles := [(Particle_init 0.5 0.5 0.1 0 0.01)\<lparr>v := (NaN, NaN)\<rparr>,
                             (Particle_init 0.5 0.5 (- 0.1) 0 0.01)\<lparr>v := (NaN, NaN)\<rparr>]\<rparr>)
   \<and> v (Particle_init 0.5 0.5 0.1 0 0.01) = (Fin 0.1, Fin 0)"
proof -
  have ov: "overlaps (Particle_init 0.5 0.5 0.1 0 0.01) (Particle_init 0.5 0.5 (- 0.1) 0 0.01)"
    using overlaps_fin[of "Particle_init 0.5 0.5 0.1 0 0.01" "0.5" "0.5"
                          "Particle_init 0.5 0.5 (- 0.1) 0 0.01" "0.5" "0.5"]
    by (simp add: Particle_init_def)
  have cv: "change_velocities (Particle_init 0.5 0.5 0.1 0 0.01)
               (Particle_init 0.5 0.5 (- 0.1) 0 0.01)
            = Inr ((Particle_init 0.5 0.5 0.1 0 0.01)\<lparr>v := (NaN, NaN)\<rparr>,
                   (Particle_init 0.5 0.5 (- 0.1) 0 0.01)\<lparr>v := (NaN, NaN)\<rparr>)"
    by (rule change_velocities_coincident[of _ "0.5" "0.5" _ "0.1" "0" "- 0.1" "0"])
       (simp_all add: Particle_init_def)
  have c2: "combinations2 2 = [(0, 1)]"
    by (simp add: combinations2_def upt_rec)
  show ?thesis
    using ov cv
    by (simp add: handle_collisions_def coincident_pair_def c2)
       (simp add: Particle_init_def)
qed

section \<open>The frame of a collision pass\<close>

lemma set_combinations2: "set (combinations2 k) = {(i, j). i < j \<and> j < k}"
proof -
  have "(a, b) \<in> set (combinations2 k) \<longleftrightarrow> a < b \<and> b < k" for a b
    by (auto simp: combinations2_def image_iff)
  then show ?thesis by auto
qed

lemma collide_pairs_range:
  "collide_pairs pairs ps = Inr ps' \<Longrightarrow>
     length ps' = length ps \<and> (\<forall>(i, j) \<in> set pairs. i < length ps \<and> j < length ps)"
proof (induction pairs arbitrary: ps)
  case Nil
  then show ?case by simp
next
  case (Cons pr rest)
  obtain i j where pr: "pr = (i, j)" by (cases pr)
  from Cons.prems pr have inr: "i < length ps" "j < length ps"
    by (auto split: if_splits)
  from Cons.prems pr inr obtain ps1 where
    rec: "collide_pairs rest ps1 = Inr ps'" and len: "length ps1 = length ps"
    by (auto split: if_splits sum.splits)
  from Cons.IH[OF rec] len inr pr show ?case by auto
qed

lemma collide_pairs_frame:
  "collide_pairs pairs ps = Inr ps' \<Longrightarrow>
     length ps' = length ps
   \<and> (\<forall>k < length ps. ps' ! k = (ps ! k)\<lparr>v := v (ps' ! k)\<rparr>)
   \<and> (\<forall>k < length ps.
         (\<forall>(i, j) \<in> set pairs. (i = k \<or> j = k) \<longrightarrow> \<not> overlaps (ps ! i) (ps ! j))
          \<longrightarrow> ps' ! k = ps ! k)"
proof (induction pairs arbitrary: ps)
  case Nil
  then show ?case by simp
next
  case (Cons pr rest)
  obtain i j where pr: "pr = (i, j)" by (cases pr)
  from Cons.prems pr have inr: "i < length ps" "j < length ps"
    by (auto split: if_splits)
  show ?case
  proof (cases "overlaps (ps ! i) (ps ! j)")
    case False
    with Cons.prems pr inr have "collide_pairs rest ps = Inr ps'" by simp
    from Cons.IH[OF this] show ?thesis by (auto simp: pr)
  next
    case True
    with Cons.prems pr inr obtain q1 q2 where
      cv: "change_velocities (ps ! i) (ps ! j) = Inr (q1, q2)"
      and rec: "collide_pairs rest (ps[i := q1, j := q2]) = Inr ps'"
      by (auto split: sum.splits)
    define ps1 where "ps1 = ps[i := q1, j := q2]"
    from change_velocities_frame[OF cv]
    have q1: "q1 = (ps ! i)\<lparr>v := v q1\<rparr>" and q2: "q2 = (ps ! j)\<lparr>v := v q2\<rparr>" by auto
    have len1: "length ps1 = length ps" by (simp add: ps1_def)
    have fr1: "ps1 ! k = (ps ! k)\<lparr>v := v (ps1 ! k)\<rparr>" if "k < length ps" for k
    proof (cases "k = j")
      case True
      then have "ps1 ! k = q2" using that by (simp add: ps1_def)
      then show ?thesis using q2 True by simp
    next
      case False
      show ?thesis
      proof (cases "k = i")
        case True
        then have "ps1 ! k = q1" using that False by (simp add: ps1_def)
        then show ?thesis using q1 True by simp
      next
        case False
        with \<open>k \<noteq> j\<close> have "ps1 ! k = ps ! k" by (simp add: ps1_def)
        then show ?thesis by simp
      qed
    qed
    have geo: "r (ps1 ! k) = r (ps ! k) \<and> radius (ps1 ! k) = radius (ps ! k)"
      if "k < length ps" for k
    proof -
      have "r (ps1 ! k) = r ((ps ! k)\<lparr>v := v (ps1 ! k)\<rparr>)
          \<and> radius (ps1 ! k) = radius ((ps ! k)\<lparr>v := v (ps1 ! k)\<rparr>)"
        using fr1[OF that] by simp
      then show ?thesis by simp
    qed
    from Cons.IH[of ps1] rec
    have ih: "length ps' = length ps1"
      "\<forall>k < length ps1. ps' ! k = (ps1 ! k)\<lparr>v := v (ps' ! k)\<rparr>"
      "\<forall>k < length ps1.
         (\<forall>(i, j) \<in> set rest. (i = k \<or> j = k) \<longrightarrow> \<not> overlaps (ps1 ! i) (ps1 ! j))
          \<longrightarrow> ps' ! k = ps1 ! k"
      by (simp_all add: ps1_def)
    have A: "length ps' = length ps" using ih(1) len1 by simp
    have B: "ps' ! k = (ps ! k)\<lparr>v := v (ps' ! k)\<rparr>" if "k < length ps" for k
    proof -
      have "ps' ! k = (ps1 ! k)\<lparr>v := v (ps' ! k)\<rparr>" using ih(2) that len1 by simp
      also have "\<dots> = ((ps ! k)\<lparr>v := v (ps1 ! k)\<rparr>)\<lparr>v := v (ps' ! k)\<rparr>"
        using fr1[OF that] by simp
      finally show ?thesis by simp
    qed
    have C: "ps' ! k = ps ! k"
      if k: "k < length ps"
      and un: "\<forall>(i, j) \<in> set (pr # rest). (i = k \<or> j = k) \<longrightarrow> \<not> overlaps (ps ! i) (ps ! j)"
      for k
    proof -
      from un pr True have ki: "k \<noteq> i" and kj: "k \<noteq> j" by auto
      then have same: "ps1 ! k = ps ! k" by (simp add: ps1_def)
      have "\<not> overlaps (ps1 ! a) (ps1 ! b)" if ab: "(a, b) \<in> set rest" "a = k \<or> b = k" for a b
      proof -
        from collide_pairs_range[OF rec] ab(1)
        have "a < length ps" "b < length ps" by (auto simp: len1[unfolded ps1_def])
        then have "overlaps (ps1 ! a) (ps1 ! b) = overlaps (ps ! a) (ps ! b)"
          using geo by (intro overlaps_cong) auto
        moreover have "\<not> overlaps (ps ! a) (ps ! b)" using un ab by auto
        ultimately show ?thesis by simp
      qed
      then have "ps' ! k = ps1 ! k" using ih(3) k len1 by auto
      then show ?thesis using same by simp
    qed
    show ?thesis using A B C by blast
  qed
qed

lemma change_velocities_returns:
  "mass p1 + mass p2 \<noteq> 0 \<Longrightarrow> \<exists>q1 q2. change_velocities p1 p2 = Inr (q1, q2)"
  by (simp add: change_velocities_def Let_def)

lemma collide_pairs_returns:
  "\<forall>(i, j) \<in> set pairs. i < length ps \<and> j < length ps \<Longrightarrow> \<forall>p \<in> set ps. 0 < mass p
   \<Longrightarrow> \<exists>ps'. collide_pairs pairs ps = Inr ps'"
proof (induction pairs arbitrary: ps)
  case Nil
  then show ?case by simp
next
  case (Cons pr rest)
  obtain i j where pr: "pr = (i, j)" by (cases pr)
  from Cons.prems(1) pr have inr: "i < length ps" "j < length ps" by auto
  show ?case
  proof (cases "overlaps (ps ! i) (ps ! j)")
    case False
    from Cons.IH[of ps] Cons.prems obtain ps' where "collide_pairs rest ps = Inr ps'" by auto
    with False pr inr show ?thesis by simp
  next
    case True
    have "0 < mass (ps ! i)" "0 < mass (ps ! j)" using Cons.prems(2) inr by auto
    then have "mass (ps ! i) + mass (ps ! j) \<noteq> 0" by simp
    from change_velocities_returns[OF this] obtain q1 q2 where
      cv: "change_velocities (ps ! i) (ps ! j) = Inr (q1, q2)" by blast
    from change_velocities_frame[OF cv]
    have q: "q1 = (ps ! i)\<lparr>v := v q1\<rparr>" "q2 = (ps ! j)\<lparr>v := v q2\<rparr>" by auto
    have mq: "0 < mass q1" "0 < mass q2"
    proof -
      have "mass q1 = mass ((ps ! i)\<lparr>v := v q1\<rparr>)" using q(1) by simp
      then show "0 < mass q1" using \<open>0 < mass (ps ! i)\<close> by simp
      have "mass q2 = mass ((ps ! j)\<lparr>v := v q2\<rparr>)" using q(2) by simp
      then show "0 < mass q2" using \<open>0 < mass (ps ! j)\<close> by simp
    qed
    have "\<forall>p \<in> set (ps[i := q1, j := q2]). 0 < mass p"
    proof
      fix p assume "p \<in> set (ps[i := q1, j := q2])"
      then have "p = q2 \<or> p \<in> set (ps[i := q1])"
        using set_update_subset_insert[of "ps[i := q1]" j q2] by auto
      moreover have "p = q1 \<or> p \<in> set ps" if "p \<in> set (ps[i := q1])"
        using that set_update_subset_insert[of ps i q1] by auto
      ultimately show "0 < mass p" using mq Cons.prems(2) by auto
    qed
    moreover have "\<forall>(a, b) \<in> set rest.
        a < length (ps[i := q1, j := q2]) \<and> b < length (ps[i := q1, j := q2])"
      using Cons.prems(1) by auto
    ultimately obtain ps' where "collide_pairs rest (ps[i := q1, j := q2]) = Inr ps'"
      using Cons.IH[of "ps[i := q1, j := q2]"] by blast
    with True pr inr cv show ?thesis by simp
  qed
qed

lemma handle_collisions_returns:
  assumes "nat (n s) \<le> length (particles s)" "\<forall>p \<in> set (particles s). 0 < mass p"
  shows "\<exists>s'. handle_collisions s = Inr s'"
proof -
  have "\<forall>(i, j) \<in> set (combinations2 (nat (n s))).
          i < length (particles s) \<and> j < length (particles s)"
    using assms(1) by (auto simp: set_combinations2)
  from collide_pairs_returns[OF this assms(2)] obtain ps' where
    "collide_pairs (combinations2 (nat (n s))) (particles s) = Inr ps'" by blast
  then show ?thesis by (simp add: handle_collisions_def)
qed

lemma handle_collisions_unchanged:
  assumes "handle_collisions s = Inr s'"
  shows "s' = s\<lparr>particles := particles s'\<rparr>
   \<and> length (particles s') = length (particles s)
   \<and> (\<forall>k < length (particles s).
         particles s' ! k = (particles s ! k)\<lparr>v := v (particles s' ! k)\<rparr>)
   \<and> (\<forall>k < length (particles s).
         (\<forall>i j. i < j \<and> j < nat (n s) \<and> (i = k \<or> j = k)
                  \<longrightarrow> \<not> overlaps (particles s ! i) (particles s ! j))
          \<longrightarrow> particles s' ! k = particles s ! k)"
proof -
  from assms obtain ps' where
    cp: "collide_pairs (combinations2 (nat (n s))) (particles s) = Inr ps'"
    and s': "s' = s\<lparr>particles := ps'\<rparr>"
    by (auto simp: handle_collisions_def split: sum.splits)
  from collide_pairs_frame[OF cp]
  have fr: "length ps' = length (particles s)"
    "\<forall>k < length (particles s). ps' ! k = (particles s ! k)\<lparr>v := v (ps' ! k)\<rparr>"
    "\<forall>k < length (particles s).
       (\<forall>(i, j) \<in> set (combinations2 (nat (n s))).
           (i = k \<or> j = k) \<longrightarrow> \<not> overlaps (particles s ! i) (particles s ! j))
        \<longrightarrow> ps' ! k = particles s ! k"
    by blast+
  have "ps' ! k = particles s ! k"
    if "k < length (particles s)"
      and "\<forall>i j. i < j \<and> j < nat (n s) \<and> (i = k \<or> j = k)
                  \<longrightarrow> \<not> overlaps (particles s ! i) (particles s ! j)" for k
  proof -
    have "\<forall>(i, j) \<in> set (combinations2 (nat (n s))).
           (i = k \<or> j = k) \<longrightarrow> \<not> overlaps (particles s ! i) (particles s ! j)"
      using that(2) by (auto simp: set_combinations2)
    with fr(3) that(1) show ?thesis by blast
  qed
  with fr(1,2) s' show ?thesis by simp
qed

text \<open>
  Claim C9. A collision pass that runs to its end leaves the simulation as it was but
  for the velocities in the particle list: the list keeps its length, every particle
  keeps its position, radius, mass and flag (it is the old particle with, at most, a
  new \<^verbatim>\<open>v\<close>), and a particle that is in no overlapping pair among the pairs of indices
  below \<^verbatim>\<open>n\<close> is wholly unchanged. The pass does run to its end when \<^verbatim>\<open>n\<close> does not
  exceed the length of the list and all masses are positive.
\<close>

theorem handle_collisions_frame:
  "(handle_collisions s = Inr s' \<longrightarrow>
      s' = s\<lparr>particles := particles s'\<rparr>
    \<and> length (particles s') = length (particles s)
    \<and> (\<forall>k < length (particles s).
          particles s' ! k = (particles s ! k)\<lparr>v := v (particles s' ! k)\<rparr>)
    \<and> (\<forall>k < length (particles s).
          (\<forall>i j. i < j \<and> j < nat (n s) \<and> (i = k \<or> j = k)
                   \<longrightarrow> \<not> overlaps (particles s ! i) (particles s ! j))
           \<longrightarrow> particles s' ! k = particles s ! k))
   \<and> (nat (n s) \<le> length (particles s) \<and> (\<forall>p \<in> set (particles s). 0 < mass p)
        \<longrightarrow> (\<exists>s''. handle_collisions s = Inr s''))"
  using handle_collisions_unchanged[of s s'] handle_collisions_returns[of s]
  by blast

lemma handle_collisions_three_particles:
  "handle_collisions three_particles =
     Inr (three_particles
            \<lparr>particles := [Particle_init 0.5 0.5 0 0 0.1, Particle_init 0.6 0.5 1 0 0.1,
                           Particle_init 0.1 0.1 0 0.2 0.05]\<rparr>)"
proof -
  have o01: "overlaps (Particle_init 0.5 0.5 1 0 0.1) (Particle_init 0.6 0.5 0 0 0.1)"
    using overlaps_fin[of "Particle_init 0.5 0.5 1 0 0.1" "0.5" "0.5"
                          "Particle_init 0.6 0.5 0 0 0.1" "0.6" "0.5"]
    by (simp add: Particle_init_def power2_eq_square)
  have o02: "\<not> overlaps (Particle_init 0.5 0.5 0 0 0.1) (Particle_init 0.1 0.1 0 0.2 0.05)"
    using overlaps_fin[of "Particle_init 0.5 0.5 0 0 0.1" "0.5" "0.5"
                          "Particle_init 0.1 0.1 0 0.2 0.05" "0.1" "0.1"]
    by (simp add: Particle_init_def power2_eq_square)
  have o12: "\<not> overlaps (Particle_init 0.6 0.5 1 0 0.1) (Particle_init 0.1 0.1 0 0.2 0.05)"
    using overlaps_fin[of "Particle_init 0.6 0.5 1 0 0.1" "0.6" "0.5"
                          "Particle_init 0.1 0.1 0 0.2 0.05" "0.1" "0.1"]
    by (simp add: Particle_init_def power2_eq_square)
  have cv: "change_velocities (Particle_init 0.5 0.5 1 0 0.1) (Particle_init 0.6 0.5 0 0 0.1)
       = Inr (Particle_init 0.5 0.5 0 0 0.1, Particle_init 0.6 0.5 1 0 0.1)"
    using change_velocities_fin[of "Particle_init 0.5 0.5 1 0 0.1" "0.5" "0.5"
            "Particle_init 0.6 0.5 0 0 0.1" "0.6" "0.5" 1 0 0 0]
    by (simp add: Particle_init_def elastic_update_def Let_def power2_eq_square)
  have c3: "combinations2 3 = [(0, 1), (0, 2), (1, 2)]"
    by (simp add: combinations2_def upt_rec)
  show ?thesis
    using o01 o02 o12 cv
    by (simp add: handle_collisions_def three_particles_def c3)
qed

theorem handle_collisions_frame_witness:
  "handle_collisions three_particles =
     Inr (three_particles
            \<lparr>particles := [Particle_init 0.5 0.5 0 0 0.1, Particle_init 0.6 0.5 1 0 0.1,
                           Particle_init 0.1 0.1 0 0.2 0.05]\<rparr>)
   \<and> length [Particle_init 0.5 0.5 0 0 0.1, Particle_init 0.6 0.5 1 0 0.1,
             Particle_init 0.1 0.1 0 0.2 0.05] = length (particles three_particles)
   \<and> [Particle_init 0.5 0.5 0 0 0.1, Particle_init 0.6 0.5 1 0 0.1,
       Particle_init 0.1 0.1 0 0.2 0.05] ! 0
     = (particles three_particles ! 0)\<lparr>v := (Fin 0, Fin 0)\<rparr>
   \<and> [Particle_init 0.5 0.5 0 0 0.1, Particle_init 0.6 0.5 1 0 0.1,
       Particle_init 0.1 0.1 0 0.2 0.05] ! 2 = particles three_particles ! 2
   \<and> nat (n three_particles) \<le> length (particles three_particles)
   \<and> 0 < mass (particles three_particles ! 0)
   \<and> 0 < mass (particles three_particles ! 1)
   \<and> 0 < mass (particles three_particles ! 2)"
  using handle_collisions_frame
          [of three_particles
              "three_particles
                 \<lparr>particles := [Particle_init 0.5 0.5 0 0 0.1, Particle_init 0.6 0.5 1 0 0.1,
                                Particle_init 0.1 0.1 0 0.2 0.05]\<rparr>"]
    handle_collisions_three_particles
  by (simp add: three_particles_def Particle_init_def)

section \<open>Removal while the list is traversed\<close>

lemma combinations2_small:
  "combinations2 (Suc 0) = []" "combinations2 1 = []" "combinations2 0 = []"
  by (simp_all add: combinations2_def upt_rec)

text \<open>
  Claim C1, on the code. When the first of two particles carries the flag, the tick
  removes it and ends the traversal: the second particle has moved to the index just
  read and is never reached. A live second particle is therefore not advanced in that
  tick (alone in the world, the same particle moves from \<open>x = 0.5\<close> to \<open>x = 0.501\<close>),
  and a flagged second particle is still in the list when the collision pass runs.
  \<^verbatim>\<open>Simulation.advance\<close> and \<^verbatim>\<open>hw1_environment.advance\<close> share the loop and the defect.
\<close>

theorem advance_skips_after_removal:
  "Simulation_advance dead_then_live =
     Inr \<lparr>particles = [Particle_init 0.5 0.5 0.1 0 0.01], n = 1, dt = 0.01, srf = None\<rparr>
   \<and> Simulation_advance live_alone =
     Inr \<lparr>particles = [\<lparr>r = (Fin 0.501, Fin 0.5), v = (Fin 0.0999995, Fin (- 0.0000005)),
                         radius = 0.01, mass = 0.0001, delete = False\<rparr>],
          n = 1, dt = 0.01, srf = None\<rparr>
   \<and> Simulation_advance dead_then_dead =
     Inr \<lparr>particles = [(Particle_init 0.5 0.5 0.1 0 0.01)\<lparr>delete := True\<rparr>],
          n = 1, dt = 0.01, srf = None\<rparr>
   \<and> hw1_advance hw1_dead_then_live =
     Inr \<lparr>particles = [Particle_init 0.5 0.5 0.1 0 0.01], n = 1, dt = 0.01,
          srf = zero_field\<rparr>"
proof -
  have a: "Simulation_advance dead_then_live =
     Inr \<lparr>particles = [Particle_init 0.5 0.5 0.1 0 0.01], n = 1, dt = 0.01, srf = None\<rparr>"
    by (simp add: Simulation_advance_def dead_then_live_def remove_at_def handle_collisions_def
        combinations2_small)
  have b: "Simulation_advance live_alone =
     Inr \<lparr>particles = [\<lparr>r = (Fin 0.501, Fin 0.5), v = (Fin 0.0999995, Fin (- 0.0000005)),
                         radius = 0.01, mass = 0.0001, delete = False\<rparr>],
          n = 1, dt = 0.01, srf = None\<rparr>"
    by (simp add: Simulation_advance_def live_alone_def handle_collisions_def
        combinations2_small Simulation_body_def Particle_advance_def Let_def
        handle_boundary_collisions_def apply_forces_def Particle_init_def vadd_def smul_def
        ssub_def minus_fl_def power2_eq_square)
  have c: "Simulation_advance dead_then_dead =
     Inr \<lparr>particles = [(Particle_init 0.5 0.5 0.1 0 0.01)\<lparr>delete := True\<rparr>],
          n = 1, dt = 0.01, srf = None\<rparr>"
    by (simp add: Simulation_advance_def dead_then_dead_def remove_at_def handle_collisions_def
        combinations2_small)
  have d: "hw1_advance hw1_dead_then_live =
     Inr \<lparr>particles = [Particle_init 0.5 0.5 0.1 0 0.01], n = 1, dt = 0.01,
          srf = zero_field\<rparr>"
    by (simp add: hw1_advance_def hw1_dead_then_live_def remove_at_def handle_collisions_def
        combinations2_small)
  from a b c d show ?thesis by blast
qed

section \<open>Placing one particle\<close>

text \<open>The angle is zero, so the candidate moves along the x axis with speed
  \<open>0.05 * sqrt u3 + 0.05\<close>.\<close>

lemma place_particle_eq:
  "place_particle ps rad (u1, u2) u3 u4 =
     (if \<exists>p2 \<in> set ps. overlaps p2
            (Particle_init (rad + (1 - 2 * rad) * u1) (rad + (1 - 2 * rad) * u2)
               (0.05 * sqrt u3 + 0.05) 0 rad)
      then (False, ps)
      else (True, ps @ [Particle_init (rad + (1 - 2 * rad) * u1) (rad + (1 - 2 * rad) * u2)
               (0.05 * sqrt u3 + 0.05) 0 rad]))"
  by (simp add: place_particle_def Let_def list_ex_iff)

lemma inside_axis:
  fixes rad u :: real
  assumes "rad \<le> 1 / 2" "0 \<le> u" "u < 1"
  shows "0 \<le> (rad + (1 - 2 * rad) * u) - rad \<and> (rad + (1 - 2 * rad) * u) + rad \<le> 1"
proof -
  have a: "0 \<le> 1 - 2 * rad" using assms(1) by simp
  then have "0 \<le> (1 - 2 * rad) * u" using assms(2) by simp
  moreover have "(1 - 2 * rad) * u \<le> (1 - 2 * rad) * 1"
    using a assms(3) by (intro mult_left_mono) simp_all
  ultimately show ?thesis by simp
qed

lemma disc_axis:
  fixes rad a b c d :: real
  assumes "0 \<le> rad" "(a - c)\<^sup>2 + (b - d)\<^sup>2 \<le> rad\<^sup>2"
  shows "c - rad \<le> a \<and> a \<le> c + rad"
proof -
  have "(a - c)\<^sup>2 \<le> (a - c)\<^sup>2 + (b - d)\<^sup>2" by simp
  with assms(2) have "(a - c)\<^sup>2 \<le> rad\<^sup>2" by linarith
  then have "\<bar>a - c\<bar> \<le> \<bar>rad\<bar>" by (simp only: abs_le_square_iff)
  with assms(1) show ?thesis by (simp add: abs_le_iff)
qed

lemma disc_inside:
  fixes rad u1 u2 a b :: real
  assumes "0 \<le> rad" "rad \<le> 1 / 2" "0 \<le> u1" "u1 < 1" "0 \<le> u2" "u2 < 1"
    "(a - (rad + (1 - 2 * rad) * u1))\<^sup>2 + (b - (rad + (1 - 2 * rad) * u2))\<^sup>2 \<le> rad\<^sup>2"
  shows "0 \<le> a \<and> a \<le> 1 \<and> 0 \<le> b \<and> b \<le> 1"
proof -
  from disc_axis[OF assms(1,7)]
  have xa: "rad + (1 - 2 * rad) * u1 - rad \<le> a" "a \<le> rad + (1 - 2 * rad) * u1 + rad" by auto
  have "(b - (rad + (1 - 2 * rad) * u2))\<^sup>2 + (a - (rad + (1 - 2 * rad) * u1))\<^sup>2 \<le> rad\<^sup>2"
    using assms(7) by (simp add: add.commute)
  from disc_axis[OF assms(1) this]
  have xb: "rad + (1 - 2 * rad) * u2 - rad \<le> b" "b \<le> rad + (1 - 2 * rad) * u2 + rad" by auto
  from inside_axis[OF assms(2,3,4)] inside_axis[OF assms(2,5,6)] xa xb
  show ?thesis by linarith
qed

text \<open>
  Claim C10, on the code. A radius above 1/2 is accepted, and no disc of that radius
  lies inside the unit square: for radius 0.6 and draws of 1/2 the particle is appended
  at \<open>(0.5, 0.5)\<close> and reaches beyond the wall at 0.
\<close>

theorem place_particle_wide_sticks_out:
  "place_particle [] (3 / 5) (1 / 2, 1 / 2) 0 0
     = (True, [Particle_init (1 / 2) (1 / 2) (1 / 20) 0 (3 / 5)])
   \<and> fst (r (Particle_init (1 / 2) (1 / 2) (1 / 20) 0 (3 / 5)))
        - Fin (radius (Particle_init (1 / 2) (1 / 2) (1 / 20) 0 (3 / 5))) < Fin 0"
  by (simp add: place_particle_eq) (simp add: Particle_init_def minus_fl_def)

text \<open>
  Claim C10, amended. \<^verbatim>\<open>place_particle\<close> builds one candidate from the radius and the
  random draws. If the candidate overlaps a particle already placed, the call returns
  \<^verbatim>\<open>False\<close> and the list is as before. Otherwise it returns \<^verbatim>\<open>True\<close> and the list is the old
  one with the candidate appended, and nothing else. When the radius is at least 0 and at
  most 1/2 and the draws are in \<open>[0, 1)\<close>, the candidate's disc lies entirely inside the
  unit square: every point within the radius of its centre has both coordinates between
  0 and 1.
\<close>

theorem place_particle_atomic:
  "((\<exists>p2 \<in> set ps. overlaps p2
        (Particle_init (rad + (1 - 2 * rad) * u1) (rad + (1 - 2 * rad) * u2)
           (0.05 * sqrt u3 + 0.05) 0 rad))
      \<longrightarrow> place_particle ps rad (u1, u2) u3 u4 = (False, ps))
   \<and> (\<not> (\<exists>p2 \<in> set ps. overlaps p2
        (Particle_init (rad + (1 - 2 * rad) * u1) (rad + (1 - 2 * rad) * u2)
           (0.05 * sqrt u3 + 0.05) 0 rad))
      \<longrightarrow> place_particle ps rad (u1, u2) u3 u4 =
           (True, ps @ [Particle_init (rad + (1 - 2 * rad) * u1) (rad + (1 - 2 * rad) * u2)
                          (0.05 * sqrt u3 + 0.05) 0 rad]))
   \<and> r (Particle_init (rad + (1 - 2 * rad) * u1) (rad + (1 - 2 * rad) * u2)
           (0.05 * sqrt u3 + 0.05) 0 rad)
       = (Fin (rad + (1 - 2 * rad) * u1), Fin (rad + (1 - 2 * rad) * u2))
   \<and> radius (Particle_init (rad + (1 - 2 * rad) * u1) (rad + (1 - 2 * rad) * u2)
           (0.05 * sqrt u3 + 0.05) 0 rad) = rad
   \<and> (0 \<le> rad \<and> rad \<le> 1 / 2 \<and> 0 \<le> u1 \<and> u1 < 1 \<and> 0 \<le> u2 \<and> u2 < 1
      \<longrightarrow> (\<forall>a b. (a - (rad + (1 - 2 * rad) * u1))\<^sup>2 + (b - (rad + (1 - 2 * rad) * u2))\<^sup>2
                     \<le> rad\<^sup>2
                  \<longrightarrow> 0 \<le> a \<and> a \<le> 1 \<and> 0 \<le> b \<and> b \<le> 1))"
proof -
  have A: "(\<exists>p2 \<in> set ps. overlaps p2
        (Particle_init (rad + (1 - 2 * rad) * u1) (rad + (1 - 2 * rad) * u2)
           (0.05 * sqrt u3 + 0.05) 0 rad))
      \<longrightarrow> place_particle ps rad (u1, u2) u3 u4 = (False, ps)"
    by (simp add: place_particle_eq)
  have B: "\<not> (\<exists>p2 \<in> set ps. overlaps p2
        (Particle_init (rad + (1 - 2 * rad) * u1) (rad + (1 - 2 * rad) * u2)
           (0.05 * sqrt u3 + 0.05) 0 rad))
      \<longrightarrow> place_particle ps rad (u1, u2) u3 u4 =
           (True, ps @ [Particle_init (rad + (1 - 2 * rad) * u1) (rad + (1 - 2 * rad) * u2)
                          (0.05 * sqrt u3 + 0.05) 0 rad])"
    by (simp add: place_particle_eq)
  have C: "r (Particle_init (rad + (1 - 2 * rad) * u1) (rad + (1 - 2 * rad) * u2)
           (0.05 * sqrt u3 + 0.05) 0 rad)
       = (Fin (rad + (1 - 2 * rad) * u1), Fin (rad + (1 - 2 * rad) * u2))"
    by (simp add: Particle_init_def)
  have D: "radius (Particle_init (rad + (1 - 2 * rad) * u1) (rad + (1 - 2 * rad) * u2)
           (0.05 * sqrt u3 + 0.05) 0 rad) = rad"
    by (simp add: Particle_init_def)
  have E: "0 \<le> rad \<and> rad \<le> 1 / 2 \<and> 0 \<le> u1 \<and> u1 < 1 \<and> 0 \<le> u2 \<and> u2 < 1
      \<longrightarrow> (\<forall>a b. (a - (rad + (1 - 2 * rad) * u1))\<^sup>2 + (b - (rad + (1 - 2 * rad) * u2))\<^sup>2
                     \<le> rad\<^sup>2
                  \<longrightarrow> 0 \<le> a \<and> a \<le> 1 \<and> 0 \<le> b \<and> b \<le> 1)"
  proof (intro impI allI)
    fix a b
    assume h: "0 \<le> rad \<and> rad \<le> 1 / 2 \<and> 0 \<le> u1 \<and> u1 < 1 \<and> 0 \<le> u2 \<and> u2 < 1"
      and d: "(a - (rad + (1 - 2 * rad) * u1))\<^sup>2 + (b - (rad + (1 - 2 * rad) * u2))\<^sup>2
                \<le> rad\<^sup>2"
    from h have "0 \<le> rad" "rad \<le> 1 / 2" "0 \<le> u1" "u1 < 1" "0 \<le> u2" "u2 < 1"
      by blast+
    from disc_inside[OF this d] show "0 \<le> a \<and> a \<le> 1 \<and> 0 \<le> b \<and> b \<le> 1" .
  qed
  from A B C D E show ?thesis by (intro conjI)
qed

lemma overlaps_centre_example:
  "overlaps (Particle_init 0.5 0.5 0.05 0 0.1) (Particle_init 0.5 0.5 0.05 0 0.1)"
  using overlaps_fin[of "Particle_init 0.5 0.5 0.05 0 0.1" "0.5" "0.5"
                        "Particle_init 0.5 0.5 0.05 0 0.1" "0.5" "0.5"]
  by (simp add: Particle_init_def)

theorem place_particle_atomic_witness:
  "place_particle [Particle_init 0.5 0.5 0.05 0 0.1] 0.1 (0.5, 0.5) 0 0
     = (False, [Particle_init 0.5 0.5 0.05 0 0.1])
   \<and> place_particle [] 0.1 (0.5, 0.5) 0 0 = (True, [Particle_init 0.5 0.5 0.05 0 0.1])
   \<and> (0 :: real) \<le> 0.1 \<and> (0.1 :: real) \<le> 1 / 2
   \<and> ((0.45 - (0.1 + (1 - 2 * 0.1) * 0.5))\<^sup>2 + (0.55 - (0.1 + (1 - 2 * 0.1) * 0.5))\<^sup>2 :: real)
        \<le> 0.1\<^sup>2
   \<and> (0 :: real) \<le> 0.45 \<and> (0.55 :: real) \<le> 1"
proof -
  note t1 = place_particle_atomic[of "[Particle_init 0.5 0.5 0.05 0 0.1]" "0.1" "0.5" "0.5" 0 0]
  note t2 = place_particle_atomic[of "[]" "0.1" "0.5" "0.5" 0 0]
  from t1[THEN conjunct1] overlaps_centre_example
  have a: "place_particle [Particle_init 0.5 0.5 0.05 0 0.1] 0.1 (0.5, 0.5) 0 0
     = (False, [Particle_init 0.5 0.5 0.05 0 0.1])"
    by simp
  from t2[THEN conjunct2, THEN conjunct1]
  have b: "place_particle [] 0.1 (0.5, 0.5) 0 0 = (True, [Particle_init 0.5 0.5 0.05 0 0.1])"
    by simp
  have h: "(0 :: real) \<le> 0.1 \<and> (0.1 :: real) \<le> 1 / 2 \<and> (0 :: real) \<le> 0.5 \<and> (0.5 :: real) < 1
         \<and> (0 :: real) \<le> 0.5 \<and> (0.5 :: real) < 1"
    by simp
  have d: "((0.45 - (0.1 + (1 - 2 * 0.1) * 0.5))\<^sup>2
          + (0.55 - (0.1 + (1 - 2 * 0.1) * 0.5))\<^sup>2 :: real) \<le> 0.1\<^sup>2"
    by (simp add: power2_eq_square)
  from t2[THEN conjunct2, THEN conjunct2, THEN conjunct2, THEN conjunct2, rule_format,
          OF h d]
  have c: "(0 :: real) \<le> 0.45 \<and> (0.55 :: real) \<le> 1" by blast
  from a b d c show ?thesis by simp
qed

section \<open>Construction\<close>

lemma hypot_cases: "hypot a b = PInf \<or> hypot a b = NaN \<or> (\<exists>c\<ge>0. hypot a b = Fin c)"
  by (cases a; cases b) (auto simp: hypot_def not_less)

lemma overlaps_nonpos: "radius p + radius q \<le> 0 \<Longrightarrow> \<not> overlaps p q"
  using hypot_cases[of "fst (r p) - fst (r q)" "snd (r p) - snd (r q)"]
  by (auto simp: overlaps_def)

lemma place_retry_nonpos:
  assumes "rad \<le> 0" "\<forall>p \<in> set ps. radius p \<le> 0"
  shows "place_retry rng k rad ps =
     Some (k + 4, ps @ [Particle_init (rad + (1 - 2 * rad) * rng k)
                          (rad + (1 - 2 * rad) * rng (k + 1))
                          (0.05 * sqrt (rng (k + 2)) + 0.05) 0 rad])"
proof -
  have "\<not> overlaps p2 (Particle_init x0 y0 w 0 rad)" if "p2 \<in> set ps" for p2 x0 y0 w
    using assms that by (intro overlaps_nonpos) (auto simp: Particle_init_def add_nonpos_nonpos)
  then show ?thesis
    by (subst place_retry.simps) (simp add: place_particle_eq)
qed

lemma place_all_nonpos:
  "\<forall>x \<in> set rads. x \<le> 0 \<Longrightarrow> \<forall>p \<in> set ps. radius p \<le> 0 \<Longrightarrow>
   \<exists>k' new. place_all rng k rads ps = Some (k', ps @ new) \<and> map radius new = rads"
proof (induction rads arbitrary: k ps)
  case Nil
  then show ?case by simp
next
  case (Cons rad rads)
  define c where "c = Particle_init (rad + (1 - 2 * rad) * rng k)
                          (rad + (1 - 2 * rad) * rng (k + 1))
                          (0.05 * sqrt (rng (k + 2)) + 0.05) 0 rad"
  have pr: "place_retry rng k rad ps = Some (k + 4, ps @ [c])"
    unfolding c_def using Cons.prems by (intro place_retry_nonpos) auto
  have rc: "radius c = rad" by (simp add: c_def Particle_init_def)
  have "\<forall>p \<in> set (ps @ [c]). radius p \<le> 0" using Cons.prems rc by auto
  from Cons.IH[OF _ this, of "k + 4"] Cons.prems(1)
  obtain k' new where "place_all rng (k + 4) rads (ps @ [c]) = Some (k', (ps @ [c]) @ new)"
    "map radius new = rads" by auto
  then have "place_all rng k (rad # rads) ps = Some (k', ps @ (c # new))
           \<and> map radius (c # new) = rad # rads"
    using pr rc by simp
  then show ?case by (intro exI[of _ k'] exI[of _ "c # new"])
qed

text \<open>
  Claim C8, on the code. Nothing checks the sign of a radius: with radius \<open>-0.1\<close> the
  construction succeeds and the world holds a particle of radius \<open>-0.1\<close>.
\<close>

theorem Simulation_init_negative_radius:
  "Simulation_init 1 (Scalar (- (1 / 10))) (None :: (nat \<Rightarrow> nat \<Rightarrow> real \<times> real) option)
       zero_draws =
     Some (Inr \<lparr>particles = [Particle_init (- (1 / 10)) (- (1 / 10)) (1 / 20) 0 (- (1 / 10))],
               n = 1, dt = 0.01, srf = None\<rparr>)"
  by (simp add: Simulation_init_def init_particles_def place_retry_nonpos zero_draws_def)

text \<open>
  Claim C8, amended. A sequence of radii whose length differs from \<^verbatim>\<open>n\<close> makes the
  construction fail with \<^verbatim>\<open>AssertionError\<close>, before a particle is placed and so before any
  step; a radius of zero or less is not rejected: for every count and every source of
  random numbers the construction returns a world with that many particles of that
  radius.
\<close>

theorem Simulation_init_invalid_configuration:
  "(k \<noteq> int (length rads) \<longrightarrow>
      Simulation_init k (Seq rads) field rng = Some (Inl AssertionError))
   \<and> (rad \<le> 0 \<longrightarrow>
      (\<exists>ps. Simulation_init k (Scalar rad) field rng =
              Some (Inr \<lparr>particles = ps, n = k, dt = 0.01, srf = field\<rparr>)
            \<and> map radius ps = replicate (nat k) rad))"
proof -
  have "\<exists>ps. Simulation_init k (Scalar rad) field rng =
              Some (Inr \<lparr>particles = ps, n = k, dt = 0.01, srf = field\<rparr>)
            \<and> map radius ps = replicate (nat k) rad" if "rad \<le> 0"
  proof -
    from place_all_nonpos[of "replicate (nat k) rad" "[]" rng 0] that
    obtain k' new where "place_all rng 0 (replicate (nat k) rad) [] = Some (k', new)"
      "map radius new = replicate (nat k) rad" by auto
    then show ?thesis
      by (simp add: Simulation_init_def init_particles_def)
  qed
  then show ?thesis by (simp add: Simulation_init_def init_particles_def)
qed

theorem Simulation_init_invalid_configuration_witness:
  "(2 :: int) \<noteq> int (length [0.1 :: real])
   \<and> Simulation_init 2 (Seq [0.1]) (None :: (nat \<Rightarrow> nat \<Rightarrow> real \<times> real) option) zero_draws
       = Some (Inl AssertionError)
   \<and> (0 :: real) \<le> 0
   \<and> (\<exists>ps. Simulation_init 2 (Scalar 0) (None :: (nat \<Rightarrow> nat \<Rightarrow> real \<times> real) option)
              zero_draws
            = Some (Inr \<lparr>particles = ps, n = 2, dt = 0.01, srf = None\<rparr>)
          \<and> map radius ps = [0, 0])"
  using Simulation_init_invalid_configuration
          [of 2 "[0.1]" "None :: (nat \<Rightarrow> nat \<Rightarrow> real \<times> real) option" zero_draws 0]
  by (simp add: numeral_2_eq_2)

section \<open>The retry loop has no bound\<close>

lemma place_retry_rejected:
  "(\<forall>i<m. \<not> fst (place_particle ps rad (rng (k + 4 * i), rng (k + 4 * i + 1))
                    (rng (k + 4 * i + 2)) (rng (k + 4 * i + 3))))
   \<Longrightarrow> place_retry rng k rad ps = place_retry rng (k + 4 * m) rad ps"
proof (induction m arbitrary: k)
  case 0
  then show ?case by simp
next
  case (Suc m)
  from Suc.prems
  have first: "\<not> fst (place_particle ps rad (rng k, rng (k + 1)) (rng (k + 2)) (rng (k + 3)))"
    by (auto dest: spec[of _ 0])
  then have same:
    "snd (place_particle ps rad (rng k, rng (k + 1)) (rng (k + 2)) (rng (k + 3))) = ps"
    by (simp add: place_particle_def Let_def split: if_splits)
  have "\<forall>i<m. \<not> fst (place_particle ps rad (rng ((k + 4) + 4 * i), rng ((k + 4) + 4 * i + 1))
                    (rng ((k + 4) + 4 * i + 2)) (rng ((k + 4) + 4 * i + 3)))"
  proof (intro allI impI)
    fix i assume "i < m"
    then have "Suc i < Suc m" by simp
    with Suc.prems
    have "\<not> fst (place_particle ps rad (rng (k + 4 * Suc i), rng (k + 4 * Suc i + 1))
                    (rng (k + 4 * Suc i + 2)) (rng (k + 4 * Suc i + 3)))" by blast
    then show "\<not> fst (place_particle ps rad (rng ((k + 4) + 4 * i), rng ((k + 4) + 4 * i + 1))
                    (rng ((k + 4) + 4 * i + 2)) (rng ((k + 4) + 4 * i + 3)))"
      by (simp add: add.assoc add.commute add.left_commute)
  qed
  from Suc.IH[OF this]
  have "place_retry rng (k + 4) rad ps = place_retry rng (k + 4 + 4 * m) rad ps" .
  moreover have "place_retry rng k rad ps = place_retry rng (k + 4) rad ps"
    by (subst place_retry.simps) (simp only: first same if_False)
  ultimately show ?case by (simp add: add.assoc)
qed

text \<open>With \<open>(1 - 2 rad)\<^sup>2 < 2 rad\<^sup>2\<close> two candidates of radius \<open>rad\<close> always overlap: their
  centres differ by at most \<open>\<bar>1 - 2 rad\<bar>\<close> on each axis, so they are closer than \<open>2 rad\<close>.
  Two particles of radius 0.3 are the instance \<open>0.16 < 0.18\<close>.\<close>

lemma tight_overlap:
  fixes rad a0 b0 u1 u2 :: real
  assumes "0 < rad" "(1 - 2 * rad)\<^sup>2 < 2 * rad\<^sup>2"
    "0 \<le> a0" "a0 < 1" "0 \<le> b0" "b0 < 1" "0 \<le> u1" "u1 < 1" "0 \<le> u2" "u2 < 1"
    "r p0 = (Fin (rad + (1 - 2 * rad) * a0), Fin (rad + (1 - 2 * rad) * b0))" "radius p0 = rad"
  shows "overlaps p0 (Particle_init (rad + (1 - 2 * rad) * u1) (rad + (1 - 2 * rad) * u2) w 0 rad)"
proof -
  have sq1: "(t - s)\<^sup>2 \<le> 1" if "0 \<le> t" "t < 1" "0 \<le> s" "s < 1" for t s :: real
  proof -
    have "\<bar>t - s\<bar> \<le> 1" using that by (simp add: abs_le_iff)
    then have "\<bar>t - s\<bar>\<^sup>2 \<le> 1\<^sup>2" by (intro power_mono) simp_all
    then show ?thesis by simp
  qed
  have dx: "((rad + (1 - 2 * rad) * a0) - (rad + (1 - 2 * rad) * u1))\<^sup>2 \<le> (1 - 2 * rad)\<^sup>2"
  proof -
    have "(rad + (1 - 2 * rad) * a0) - (rad + (1 - 2 * rad) * u1) = (1 - 2 * rad) * (a0 - u1)"
      by (simp add: right_diff_distrib)
    then have "((rad + (1 - 2 * rad) * a0) - (rad + (1 - 2 * rad) * u1))\<^sup>2
          = (1 - 2 * rad)\<^sup>2 * (a0 - u1)\<^sup>2"
      by (simp only: power_mult_distrib)
    also have "\<dots> \<le> (1 - 2 * rad)\<^sup>2 * 1"
      using sq1[OF assms(3,4,7,8)] by (intro mult_left_mono) simp_all
    finally show ?thesis by simp
  qed
  have dy: "((rad + (1 - 2 * rad) * b0) - (rad + (1 - 2 * rad) * u2))\<^sup>2 \<le> (1 - 2 * rad)\<^sup>2"
  proof -
    have "(rad + (1 - 2 * rad) * b0) - (rad + (1 - 2 * rad) * u2) = (1 - 2 * rad) * (b0 - u2)"
      by (simp add: right_diff_distrib)
    then have "((rad + (1 - 2 * rad) * b0) - (rad + (1 - 2 * rad) * u2))\<^sup>2
          = (1 - 2 * rad)\<^sup>2 * (b0 - u2)\<^sup>2"
      by (simp only: power_mult_distrib)
    also have "\<dots> \<le> (1 - 2 * rad)\<^sup>2 * 1"
      using sq1[OF assms(5,6,9,10)] by (intro mult_left_mono) simp_all
    finally show ?thesis by simp
  qed
  have "(rad + rad)\<^sup>2 = 2 * (2 * rad\<^sup>2)" by (simp add: power2_eq_square algebra_simps)
  with dx dy assms(2)
  have "((rad + (1 - 2 * rad) * a0) - (rad + (1 - 2 * rad) * u1))\<^sup>2
      + ((rad + (1 - 2 * rad) * b0) - (rad + (1 - 2 * rad) * u2))\<^sup>2 < (rad + rad)\<^sup>2"
    by linarith
  then show ?thesis
    using overlaps_fin[of p0 "rad + (1 - 2 * rad) * a0" "rad + (1 - 2 * rad) * b0"
        "Particle_init (rad + (1 - 2 * rad) * u1) (rad + (1 - 2 * rad) * u2) w 0 rad"
        "rad + (1 - 2 * rad) * u1" "rad + (1 - 2 * rad) * u2"] assms(1,11,12)
    by (simp add: Particle_init_def)
qed

lemma place_retry_tight_diverges:
  assumes rng: "\<forall>i. 0 \<le> rng i \<and> rng i < 1"
    and rad: "0 < rad" "(1 - 2 * rad)\<^sup>2 < 2 * rad\<^sup>2"
    and p0: "r p0 = (Fin (rad + (1 - 2 * rad) * a0), Fin (rad + (1 - 2 * rad) * b0))"
      "radius p0 = rad" "0 \<le> a0" "a0 < 1" "0 \<le> b0" "b0 < 1"
  shows "place_retry rng k rad [p0] = None"
proof (rule ccontr)
  assume "place_retry rng k rad [p0] \<noteq> None"
  then obtain y where y: "place_retry rng k rad [p0] = Some y" by auto
  have "\<not> (rng' = rng \<and> rad' = rad \<and> ps' = [p0])"
    if a: "place_retry rng' k' rad' ps' = Some y'" for rng' k' rad' ps' y'
  proof (rule place_retry.raw_induct
      [where P = "\<lambda>rng' k' rad' ps' y'. \<not> (rng' = rng \<and> rad' = rad \<and> ps' = [p0])", OF _ a])
    fix f :: "(nat \<Rightarrow> real) \<Rightarrow> nat \<Rightarrow> real \<Rightarrow> particle list \<Rightarrow> (nat \<times> particle list) option"
    fix rng' k' rad' ps' y'
    assume ih: "\<And>g j c qs z. f g j c qs = Some z \<Longrightarrow> \<not> (g = rng \<and> c = rad \<and> qs = [p0])"
    assume step:
      "(if fst (place_particle ps' rad' (rng' k', rng' (k' + 1)) (rng' (k' + 2)) (rng' (k' + 3)))
        then Some (k' + 4,
               snd (place_particle ps' rad' (rng' k', rng' (k' + 1)) (rng' (k' + 2))
                      (rng' (k' + 3))))
        else f rng' (k' + 4) rad'
               (snd (place_particle ps' rad' (rng' k', rng' (k' + 1)) (rng' (k' + 2))
                       (rng' (k' + 3))))) = Some y'"
    show "\<not> (rng' = rng \<and> rad' = rad \<and> ps' = [p0])"
    proof
      assume eq: "rng' = rng \<and> rad' = rad \<and> ps' = [p0]"
      have ov: "overlaps p0 (Particle_init (rad + (1 - 2 * rad) * rng k')
            (rad + (1 - 2 * rad) * rng (k' + 1)) w 0 rad)" for w
        by (rule tight_overlap[where ?a0.0 = a0 and ?b0.0 = b0]) (use rng rad p0 in auto)
      have pp: "place_particle [p0] rad (rng k', rng (k' + 1)) (rng (k' + 2)) (rng (k' + 3))
                 = (False, [p0])"
        using ov by (simp add: place_particle_eq)
      from step eq have "f rng (k' + 4) rad [p0] = Some y'"
        by (simp only: pp fst_conv snd_conv if_False)
      from ih[OF this] show False by simp
    qed
  qed
  from this[OF y] show False by simp
qed

lemma Simulation_init_tight:
  assumes rng: "\<forall>i. 0 \<le> rng i \<and> rng i < 1"
    and rad: "0 < rad" "(1 - 2 * rad)\<^sup>2 < 2 * rad\<^sup>2" and k: "2 \<le> k"
  shows "Simulation_init k (Scalar rad) field rng = None"
proof -
  define p0 where "p0 = Particle_init (rad + (1 - 2 * rad) * rng 0)
                          (rad + (1 - 2 * rad) * rng (0 + 1))
                          (0.05 * sqrt (rng (0 + 2)) + 0.05) 0 rad"
  have first: "place_retry rng 0 rad [] = Some (0 + 4, [p0])"
    by (subst place_retry.simps) (simp add: place_particle_eq p0_def)
  have u0: "0 \<le> rng 0" "rng 0 < 1" "0 \<le> rng 1" "rng 1 < 1" using rng by auto
  have "r p0 = (Fin (rad + (1 - 2 * rad) * rng 0), Fin (rad + (1 - 2 * rad) * rng 1))"
    "radius p0 = rad"
    by (simp_all add: p0_def Particle_init_def)
  from place_retry_tight_diverges[OF rng rad this u0, of 4]
  have second: "place_retry rng 4 rad [p0] = None" .
  have "nat k = Suc (Suc (nat k - 2))" using k by simp
  then have "replicate (nat k) rad = rad # rad # replicate (nat k - 2) rad"
    by (metis replicate_Suc)
  then have "place_all rng 0 (replicate (nat k) rad) [] = None"
    using first second by simp
  then show ?thesis by (simp add: Simulation_init_def init_particles_def)
qed

text \<open>
  Claim C7, on the code. For two particles of radius 0.3 the construction neither
  returns a world nor signals an error: it does not return at all.
\<close>

theorem Simulation_init_infeasible_loops:
  "Simulation_init 2 (Scalar (3 / 10)) (None :: (nat \<Rightarrow> nat \<Rightarrow> real \<times> real) option) zero_draws
     = None"
  by (rule Simulation_init_tight) (simp_all add: zero_draws_def power2_eq_square)

text \<open>
  Claim C7, amended. Initial placement retries a rejected placement, and the number of
  retries has no cap: after any number \<open>m\<close> of rejected candidates the loop goes on
  with the next one. For a configuration of at least two particles of one radius \<open>rad\<close>
  with \<open>0 < rad\<close> and \<open>(1 - 2 rad)\<^sup>2 < 2 rad\<^sup>2\<close> (no two such particles can be placed
  without overlapping; two particles of radius 0.3 are an instance), every candidate for
  the second particle is rejected whatever the random numbers in \<open>[0, 1)\<close>, and the
  construction never returns: no error is signalled.
\<close>

theorem place_retry_uncapped:
  "((\<forall>i<m. \<not> fst (place_particle ps rad (rng (k + 4 * i), rng (k + 4 * i + 1))
                    (rng (k + 4 * i + 2)) (rng (k + 4 * i + 3))))
      \<longrightarrow> place_retry rng k rad ps = place_retry rng (k + 4 * m) rad ps)
   \<and> ((\<forall>i. 0 \<le> rng i \<and> rng i < 1) \<and> 0 < rad \<and> (1 - 2 * rad)\<^sup>2 < 2 * rad\<^sup>2 \<and> 2 \<le> cnt
      \<longrightarrow> Simulation_init cnt (Scalar rad) field rng = None)"
  using place_retry_rejected[of m ps rad rng k] Simulation_init_tight[of rng rad cnt field]
  by blast

lemma half_draws_rejected:
  "\<not> fst (place_particle [Particle_init 0.5 0.5 0.05 0 0.3] (3 / 10)
            (half_draws i, half_draws j) (half_draws k) (half_draws l))"
proof -
  have "overlaps (Particle_init 0.5 0.5 0.05 0 0.3)
          (Particle_init (3 / 10 + (1 - 2 * (3 / 10)) * (1 / 2))
             (3 / 10 + (1 - 2 * (3 / 10)) * (1 / 2)) w 0 (3 / 10))" for w
    by (rule tight_overlap[where ?a0.0 = "1 / 2" and ?b0.0 = "1 / 2"])
       (simp_all add: Particle_init_def power2_eq_square)
  then show ?thesis by (simp add: place_particle_eq half_draws_def)
qed

theorem place_retry_uncapped_witness:
  "place_retry half_draws 0 (3 / 10) [Particle_init 0.5 0.5 0.05 0 0.3]
     = place_retry half_draws 12 (3 / 10) [Particle_init 0.5 0.5 0.05 0 0.3]
   \<and> (\<forall>i. 0 \<le> half_draws i \<and> half_draws i < 1)
   \<and> (0 :: real) < 3 / 10 \<and> ((1 - 2 * (3 / 10))\<^sup>2 :: real) < 2 * (3 / 10)\<^sup>2 \<and> (2 :: int) \<le> 2
   \<and> Simulation_init 2 (Scalar (3 / 10)) (None :: (nat \<Rightarrow> nat \<Rightarrow> real \<times> real) option) half_draws
       = None"
  using place_retry_uncapped[of 3 "[Particle_init 0.5 0.5 0.05 0 0.3]" "3 / 10" half_draws 0 2
          "None :: (nat \<Rightarrow> nat \<Rightarrow> real \<times> real) option"]
    half_draws_rejected
  by (simp add: half_draws_def power2_eq_square)

end
